theory Spec2Isabelle
  imports Complex_Main "HOL-Library.Multiset" "HOL-Library.AList"
begin

section \<open>JavaScript numbers\<close>

text \<open>
  JavaScript numbers are binary64 values. A finite one is kept as the rational it denotes;
  \<open>NaN\<close> and the two infinities are constructors of their own. The sign of zero is not
  kept: nothing below reads it.
\<close>

datatype jsnum = NaN | PosInf | NegInf | Fin rat

text \<open>
  Rounding a rational to the nearest binary64 value, ties to even: the result of every
  arithmetic operation and of reading a decimal literal. \<open>ilog2\<close> is the binary exponent
  of a positive rational, \<open>ulp\<close> the spacing of binary64 values at that exponent
  (subnormal below \<open>2\<^sup>-\<^sup>1\<^sup>0\<^sup>2\<^sup>2\<close>); a result of \<open>2\<^sup>1\<^sup>0\<^sup>2\<^sup>4\<close> or more overflows.
\<close>

function bitLength :: "int \<Rightarrow> nat" where
  "bitLength a = (if a \<le> 0 then 0 else Suc (bitLength (a div 2)))"
  by pat_completeness auto
termination
  by (relation "measure nat") auto

definition pow2 :: "int \<Rightarrow> rat" where
  "pow2 e = (if 0 \<le> e then 2 ^ nat e else 1 / 2 ^ nat (- e))"

definition pow10 :: "int \<Rightarrow> rat" where
  "pow10 e = (if 0 \<le> e then 10 ^ nat e else 1 / 10 ^ nat (- e))"

definition ilog2 :: "rat \<Rightarrow> int" where
  "ilog2 x =
     (let (a, b) = quotient_of x;
          e = int (bitLength a) - int (bitLength b)
      in if pow2 e \<le> x then e else e - 1)"

definition roundHalfEven :: "rat \<Rightarrow> int" where
  "roundHalfEven q =
     (let n = \<lfloor>q\<rfloor>; r = q - of_int n
      in if r < 1 / 2 then n else if r > 1 / 2 then n + 1 else if even n then n else n + 1)"

definition fl :: "rat \<Rightarrow> jsnum" where
  "fl x =
     (if x = 0 then Fin 0
      else (let a = \<bar>x\<bar>;
                e = max (ilog2 a) (- 1022);
                ulp = pow2 (e - 52);
                r = of_int (roundHalfEven (a / ulp)) * ulp
            in if r \<ge> pow2 1024 then (if x > 0 then PosInf else NegInf)
               else Fin (if x > 0 then r else - r)))"

text \<open>\<open>x + y\<close>, \<open>x / n\<close> for an array length \<open>n > 0\<close>, \<open>x >= y\<close>, \<open>x <= y\<close> and \<open>x || 0\<close>.\<close>

fun jsAdd :: "jsnum \<Rightarrow> jsnum \<Rightarrow> jsnum" where
  "jsAdd NaN _ = NaN"
| "jsAdd _ NaN = NaN"
| "jsAdd PosInf NegInf = NaN"
| "jsAdd NegInf PosInf = NaN"
| "jsAdd PosInf _ = PosInf"
| "jsAdd _ PosInf = PosInf"
| "jsAdd NegInf _ = NegInf"
| "jsAdd _ NegInf = NegInf"
| "jsAdd (Fin a) (Fin b) = fl (a + b)"

fun jsDivLength :: "jsnum \<Rightarrow> nat \<Rightarrow> jsnum" where
  "jsDivLength (Fin a) n = fl (a / of_nat n)"
| "jsDivLength x n = x"

fun jsGe :: "jsnum \<Rightarrow> jsnum \<Rightarrow> bool" where
  "jsGe NaN _ = False"
| "jsGe _ NaN = False"
| "jsGe PosInf _ = True"
| "jsGe _ NegInf = True"
| "jsGe NegInf _ = False"
| "jsGe _ PosInf = False"
| "jsGe (Fin a) (Fin b) = (a \<ge> b)"

definition jsLe :: "jsnum \<Rightarrow> jsnum \<Rightarrow> bool" where
  "jsLe x y = jsGe y x"

definition orZero :: "jsnum \<Rightarrow> jsnum" where
  "orZero x = (if x = NaN \<or> x = Fin 0 then Fin 0 else x)"

section \<open>Strings and \<open>parseFloat\<close>\<close>

text \<open>
  Strings are ASCII here. \<open>isWhiteSpace\<close> is the ASCII part of what \<open>trim\<close>, \<open>\s\<close> and
  \<open>parseFloat\<close> skip: tab, line feed, vertical tab, form feed, carriage return, space.
\<close>

definition isWhiteSpace :: "char \<Rightarrow> bool" where
  "isWhiteSpace c = (c \<in> set [CHR 0x09, CHR 0x0A, CHR 0x0B, CHR 0x0C, CHR 0x0D, CHR '' ''])"

definition isDigit :: "char \<Rightarrow> bool" where
  "isDigit c = (c \<in> set ''0123456789'')"

definition trim :: "string \<Rightarrow> string" where
  "trim s = rev (dropWhile isWhiteSpace (rev (dropWhile isWhiteSpace s)))"

definition digitsValue :: "string \<Rightarrow> int" where
  "digitsValue ds = fold (\<lambda>c n. 10 * n + (of_char c - 48)) ds 0"

text \<open>The exponent part \<open>e\<close>/\<open>E\<close>, sign, digits; it is read only when a digit follows.\<close>

definition exponentPart :: "string \<Rightarrow> int" where
  "exponentPart r =
     (case r of
        [] \<Rightarrow> 0
      | c # r1 \<Rightarrow>
          if c = CHR ''e'' \<or> c = CHR ''E'' then
            (case r1 of
               [] \<Rightarrow> 0
             | d # r2 \<Rightarrow>
                 if d = CHR ''-'' then
                   (if takeWhile isDigit r2 = [] then 0 else - digitsValue (takeWhile isDigit r2))
                 else if d = CHR ''+'' then digitsValue (takeWhile isDigit r2)
                 else digitsValue (takeWhile isDigit r1))
          else 0)"

text \<open>
  \<open>parseFloat\<close> of a string (ECMAScript): skip leading white space, read the longest
  prefix that is a decimal literal (sign, \<open>Infinity\<close> or digits with an optional fraction
  and exponent) and round its value to binary64; \<open>NaN\<close> when there is no such prefix.
\<close>

definition parseFloat :: "string \<Rightarrow> jsnum" where
  "parseFloat s =
     (let t = dropWhile isWhiteSpace s;
          neg = (t \<noteq> [] \<and> hd t = CHR ''-'');
          u = (if t \<noteq> [] \<and> (hd t = CHR ''-'' \<or> hd t = CHR ''+'') then tl t else t)
      in if take 8 u = ''Infinity'' then (if neg then NegInf else PosInf)
         else
           (let ip = takeWhile isDigit u;
                r1 = dropWhile isDigit u;
                hasDot = (r1 \<noteq> [] \<and> hd r1 = CHR ''.'');
                fp = (if hasDot then takeWhile isDigit (tl r1) else []);
                r2 = (if hasDot then dropWhile isDigit (tl r1) else r1)
            in if ip = [] \<and> fp = [] then NaN
               else
                 (let m = of_int (digitsValue (ip @ fp)) / 10 ^ length fp;
                      v = m * pow10 (exponentPart r2)
                  in fl (if neg then - v else v))))"

section \<open>JSON values, requests and responses\<close>

text \<open>
  What a handler passes to \<open>res.json\<close>. \<open>JDate t\<close> is a \<open>Date\<close> at \<open>t\<close> milliseconds
  after the epoch (serialised by \<open>toISOString\<close>), \<open>JNumberText x\<close> the string
  \<open>String(x)\<close> of a number.
\<close>

datatype json =
    JUndefined
  | JNull
  | JBool bool
  | JNum jsnum
  | JNumberText jsnum
  | JStr string
  | JDate int
  | JArr "json list"
  | JObj "(string \<times> json) list"

text \<open>
  \<open>x.toFixed(2)\<close>: the decimal text of the integer nearest to \<open>100 x\<close> (the larger one on
  a tie), with a point before its last two digits. For \<open>NaN\<close>, the infinities and
  \<open>|x| \<ge> 10\<^sup>2\<^sup>1\<close> JavaScript prints \<open>String(x)\<close>, which is left as \<open>JNumberText x\<close>.
\<close>

function digitsOf :: "int \<Rightarrow> string" where
  "digitsOf n = (if n < 10 then [char_of (48 + n)] else digitsOf (n div 10) @ [char_of (48 + n mod 10)])"
  by pat_completeness auto
termination
  by (relation "measure nat") auto

definition toFixed2 :: "jsnum \<Rightarrow> json" where
  "toFixed2 x =
     (case x of
        Fin a \<Rightarrow>
          if \<bar>a\<bar> \<ge> 10 ^ 21 then JNumberText x
          else
            (let n = \<lfloor>\<bar>a\<bar> * 100 + 1 / 2\<rfloor>;
                 m = digitsOf n;
                 padded = replicate (3 - length m) CHR ''0'' @ m;
                 k = length padded - 2
             in JStr ((if a < 0 then ''-'' else []) @ take k padded @ ''.'' @ drop k padded))
      | _ \<Rightarrow> JNumberText x)"

record response =
  status :: nat
  body :: json

text \<open>
  The parts of an Express request the admin routes read: \<open>req.headers.authorization\<close>,
  \<open>req.query.token\<close>, \<open>req.ip\<close>, \<open>req.connection.remoteAddress\<close>, \<open>req.params.id\<close>,
  \<open>req.body.applicationIds\<close> (\<open>None\<close> when it is not an array) and the flag
  \<open>req.isAdmin\<close> that the authentication middleware sets.
\<close>

record request =
  authorization :: "string option"
  query_token :: "string option"
  ip :: "string option"
  remoteAddress :: "string option"
  params_id :: string
  applicationIds :: "string list option"
  isAdmin :: bool

text \<open>A middleware either answers the request or hands it on with \<open>next()\<close>.\<close>

datatype 'a mw = Respond response | Next 'a

section \<open>Authentication utilities (backend/utils/auth.js)\<close>

text \<open>\<open>process.env.ADMIN_TOKEN || 'admin-demo-token-2024'\<close>: unset and empty both fall back.\<close>

definition validToken :: "string option \<Rightarrow> string" where
  "validToken ADMIN_TOKEN =
     (case ADMIN_TOKEN of
        None \<Rightarrow> ''admin-demo-token-2024''
      | Some t \<Rightarrow> if t = [] then ''admin-demo-token-2024'' else t)"

text \<open>\<open>validateAdminToken\<close>; the argument is \<open>None\<close> for \<open>null\<close>.\<close>

definition validateAdminToken :: "string option \<Rightarrow> string option \<Rightarrow> bool" where
  "validateAdminToken ADMIN_TOKEN token =
     (case token of
        None \<Rightarrow> False
      | Some t \<Rightarrow> if t = [] then False else t = validToken ADMIN_TOKEN)"

text \<open>
  The token \<open>authenticateAdmin\<close> works with: the text after \<open>Bearer \<close> when the
  Authorization header starts with it, otherwise a non-empty \<open>token\<close> query parameter,
  otherwise \<open>null\<close>.
\<close>

definition extractToken :: "request \<Rightarrow> string option" where
  "extractToken req =
     (case authorization req of
        Some authHeader \<Rightarrow>
          if authHeader \<noteq> [] \<and> take 7 authHeader = ''Bearer '' then Some (drop 7 authHeader)
          else (case query_token req of
                  Some q \<Rightarrow> if q \<noteq> [] then Some q else None
                | None \<Rightarrow> None)
      | None \<Rightarrow>
          (case query_token req of
             Some q \<Rightarrow> if q \<noteq> [] then Some q else None
           | None \<Rightarrow> None))"

text \<open>
  A header value reaches the route as the HTTP parser delivers it: the optional white
  space (space, tab) around it is stripped, so it neither starts nor ends with one.
\<close>

definition ows :: "char \<Rightarrow> bool" where
  "ows c = (c = CHR '' '' \<or> c = CHR 0x09)"

definition delivered :: "request \<Rightarrow> bool" where
  "delivered req =
     (case authorization req of
        None \<Rightarrow> True
      | Some h \<Rightarrow> h = [] \<or> (\<not> ows (hd h) \<and> \<not> ows (last h)))"

definition authenticateAdmin :: "string option \<Rightarrow> request \<Rightarrow> request mw" where
  "authenticateAdmin ADMIN_TOKEN req =
     (let token = extractToken req in
      if token = None \<or> token = Some [] then
        Respond \<lparr>status = 401,
                 body = JObj [(''error'', JStr ''Authentication required''),
                              (''message'', JStr ''Please provide a valid admin token'')]\<rparr>
      else if \<not> validateAdminToken ADMIN_TOKEN token then
        Respond \<lparr>status = 403,
                 body = JObj [(''error'', JStr ''Invalid token''),
                              (''message'', JStr ''The provided token is not valid'')]\<rparr>
      else Next (req\<lparr>isAdmin := True\<rparr>))"

definition requireAdmin :: "request \<Rightarrow> request mw" where
  "requireAdmin req =
     (if \<not> isAdmin req then
        Respond \<lparr>status = 403,
                 body = JObj [(''error'', JStr ''Admin access required''),
                              (''message'', JStr ''This endpoint requires admin privileges'')]\<rparr>
      else Next req)"

text \<open>
  \<open>global.rateLimitStore\<close>: undefined (\<open>None\<close>) until the first admin request creates the
  \<open>Map\<close> from keys \<open>admin_<ip>\<close> to arrays of \<open>Date.now()\<close> values (milliseconds).
\<close>

type_synonym rateLimitStore = "(string \<rightharpoonup> int list) option"

text \<open>\<open>req.ip || req.connection.remoteAddress\<close>, as the template string prints it.\<close>

definition clientIp :: "request \<Rightarrow> string" where
  "clientIp req =
     (let fallback = (case remoteAddress req of None \<Rightarrow> ''undefined'' | Some a \<Rightarrow> a) in
      case ip req of
        None \<Rightarrow> fallback
      | Some a \<Rightarrow> if a = [] then fallback else a)"

definition rateKey :: "request \<Rightarrow> string" where
  "rateKey req = ''admin_'' @ clientIp req"

definition adminRateLimit :: "request \<Rightarrow> int \<Rightarrow> rateLimitStore \<Rightarrow> request mw \<times> rateLimitStore" where
  "adminRateLimit req now g =
     (let store = (case g of None \<Rightarrow> Map.empty | Some m \<Rightarrow> m);
          key = rateKey req;
          requests = (case store key of None \<Rightarrow> [] | Some r \<Rightarrow> r);
          recentRequests = filter (\<lambda>time. now - time < 60000) requests
      in if length recentRequests \<ge> 10 then
           (Respond \<lparr>status = 429,
                     body = JObj [(''error'', JStr ''Rate limit exceeded''),
                                  (''message'', JStr ''Too many admin requests. Please try again later.'')]\<rparr>,
            Some store)
         else (Next req, Some (store(key \<mapsto> recentRequests @ [now]))))"

text \<open>
  The three \<open>router.use\<close> lines of backend/routes/adminRoutes.js, in order: every admin
  route runs \<open>authenticateAdmin\<close>, \<open>requireAdmin\<close> and \<open>adminRateLimit\<close> first.
\<close>

definition adminGate :: "string option \<Rightarrow> request \<Rightarrow> int \<Rightarrow> rateLimitStore \<Rightarrow> request mw \<times> rateLimitStore" where
  "adminGate ADMIN_TOKEN req now g =
     (case authenticateAdmin ADMIN_TOKEN req of
        Respond r \<Rightarrow> (Respond r, g)
      | Next req1 \<Rightarrow>
          (case requireAdmin req1 of
             Respond r \<Rightarrow> (Respond r, g)
           | Next req2 \<Rightarrow> adminRateLimit req2 now g))"

text \<open>A run of admin requests, each with the clock value it is served at.\<close>

fun runGate :: "string option \<Rightarrow> (request \<times> int) list \<Rightarrow> rateLimitStore \<Rightarrow> request mw list \<times> rateLimitStore" where
  "runGate ADMIN_TOKEN [] g = ([], g)"
| "runGate ADMIN_TOKEN ((req, now) # rest) g =
     (let (r, g1) = adminGate ADMIN_TOKEN req now g;
          (rs, g2) = runGate ADMIN_TOKEN rest g1
      in (r # rs, g2))"

text \<open>The timestamps stored for a key; nothing stored reads as the empty window.\<close>

definition window :: "rateLimitStore \<Rightarrow> string \<Rightarrow> int list" where
  "window g key =
     (case g of
        None \<Rightarrow> []
      | Some m \<Rightarrow> (case m key of None \<Rightarrow> [] | Some ts \<Rightarrow> ts))"

text \<open>
  The states of \<open>global.rateLimitStore\<close> the process can be in: undefined at start, then
  whatever \<open>adminRateLimit\<close> leaves, its only writer.
\<close>

inductive reachable :: "rateLimitStore \<Rightarrow> bool" where
  start: "reachable None"
| step: "reachable g \<Longrightarrow> reachable (snd (adminRateLimit req now g))"

definition admitted :: "request mw \<Rightarrow> bool" where
  "admitted r = (case r of Next _ \<Rightarrow> True | Respond _ \<Rightarrow> False)"

definition rejectedWith :: "nat \<Rightarrow> request mw \<Rightarrow> bool" where
  "rejectedWith code r = (case r of Next _ \<Rightarrow> False | Respond resp \<Rightarrow> status resp = code)"

section \<open>Identifier validation (backend/utils/validation.js)\<close>

record validation =
  isValid :: bool
  errors :: "string list"

definition isHex :: "char \<Rightarrow> bool" where
  "isHex c = (c \<in> set ''0123456789abcdefABCDEF'')"

text \<open>
  The regular expression of \<open>isValidUuid\<close>, case-insensitive and anchored at both ends:
  8 hex digits, 4 hex digits, a version digit 1-5 and 3 hex digits, a variant digit
  8, 9, a or b and 3 hex digits, 12 hex digits, separated by hyphens.
\<close>

definition isValidUuid :: "string \<Rightarrow> bool" where
  "isValidUuid uuid =
     (length uuid = 36 \<and>
      list_all isHex (take 8 uuid) \<and> uuid ! 8 = CHR ''-'' \<and>
      list_all isHex (take 4 (drop 9 uuid)) \<and> uuid ! 13 = CHR ''-'' \<and>
      uuid ! 14 \<in> set ''12345'' \<and> list_all isHex (take 3 (drop 15 uuid)) \<and>
      uuid ! 18 = CHR ''-'' \<and>
      uuid ! 19 \<in> set ''89abAB'' \<and> list_all isHex (take 3 (drop 20 uuid)) \<and>
      uuid ! 23 = CHR ''-'' \<and>
      list_all isHex (drop 24 uuid))"

definition validateApplicationId :: "string \<Rightarrow> validation" where
  "validateApplicationId ident =
     (let errs = (if ident = [] then [''Application ID is required'']
                  else if \<not> isValidUuid ident then [''Invalid application ID format'']
                  else [])
      in \<lparr>isValid = (length errs = 0), errors = errs\<rparr>)"

section \<open>The services behind the admin controller\<close>

text \<open>A row of the \<open>Applications\<close> table; \<open>None\<close> is SQL \<open>NULL\<close>.\<close>

record application =
  db_id :: string
  db_name :: "string option"
  db_email :: "string option"
  db_phone :: "string option"
  db_course :: "string option"
  db_department :: "string option"
  db_gpa :: "jsnum option"
  db_document_name :: "string option"
  db_encrypted_data :: "string option"
  db_iv :: "string option"
  db_created_at :: int

datatype dbStatus = DbUp | DbConnectionFails | DbQueryFails

text \<open>
  What the controller's collaborators do is outside the repository: the database's
  contents and health, the key vault's \<open>decrypt\<close> operation (\<open>None\<close> when the call throws,
  as it does on a ciphertext whose tag does not verify) and \<open>JSON.parse\<close> (\<open>None\<close> for a
  \<open>SyntaxError\<close>). They are parameters of the model.
\<close>

record services =
  dbStatus :: dbStatus
  Applications :: "application list"
  kvConfigured :: bool
  kvDecrypt :: "string \<Rightarrow> string option"
  JSON_parse :: "string \<Rightarrow> json option"

text \<open>\<open>AzureSqlService.getApplicationById\<close>: the thrown message, or the row, or \<open>null\<close>.\<close>

definition getApplicationById :: "services \<Rightarrow> string \<Rightarrow> string + application option" where
  "getApplicationById sv applicationId =
     (case dbStatus sv of
        DbConnectionFails \<Rightarrow> Inl ''Database connection failed''
      | DbQueryFails \<Rightarrow> Inl ''Failed to retrieve application from database''
      | DbUp \<Rightarrow> Inr (find (\<lambda>r. db_id r = applicationId) (Applications sv)))"

text \<open>
  \<open>AzureKeyVaultService.decryptData\<close>: every failure inside its \<open>try\<close> (vault not
  configured, key lookup, the decrypt call) is rethrown with one message.
\<close>

definition decryptData :: "services \<Rightarrow> string \<Rightarrow> string + string" where
  "decryptData sv ciphertext =
     (if \<not> kvConfigured sv then Inl ''Failed to decrypt data with Azure Key Vault''
      else (case kvDecrypt sv ciphertext of
              None \<Rightarrow> Inl ''Failed to decrypt data with Azure Key Vault''
            | Some plaintext \<Rightarrow> Inr plaintext))"

section \<open>The admin controller (backend/controllers/adminController.js)\<close>

text \<open>How a promise settles, and what a handler did: the store reads and key vault calls.\<close>

datatype settled = Fulfilled json | Rejected string

datatype event = StoreRead string | KeyVaultDecrypt string

record handled =
  sent :: response
  events :: "event list"
  returned :: settled

definition optStr :: "string option \<Rightarrow> json" where
  "optStr s = (case s of None \<Rightarrow> JNull | Some v \<Rightarrow> JStr v)"

definition optNum :: "jsnum option \<Rightarrow> json" where
  "optNum n = (case n of None \<Rightarrow> JNull | Some v \<Rightarrow> JNum v)"

text \<open>The \<open>catch\<close> block of \<open>decryptApplication\<close>.\<close>

definition decryptFailed :: "string \<Rightarrow> response" where
  "decryptFailed message =
     \<lparr>status = 500,
      body = JObj [(''error'', JStr ''Failed to decrypt application''),
                   (''message'', JStr (if message = [] then ''Unknown error occurred'' else message))]\<rparr>"

text \<open>The object sent under \<open>application\<close> on success.\<close>

definition decryptedView :: "application \<Rightarrow> json \<Rightarrow> json" where
  "decryptedView app decryptedApplicationData =
     JObj [(''id'', JStr (db_id app)),
           (''name'', optStr (db_name app)),
           (''email'', optStr (db_email app)),
           (''phone'', optStr (db_phone app)),
           (''course'', optStr (db_course app)),
           (''department'', optStr (db_department app)),
           (''gpa'', optNum (db_gpa app)),
           (''documentName'', optStr (db_document_name app)),
           (''createdAt'', JDate (db_created_at app)),
           (''decryptedData'', decryptedApplicationData)]"

text \<open>
  \<open>AdminController.decryptApplication(req, res)\<close> with \<open>req.params.id = ident\<close>.
  \<open>resJson\<close> is what \<open>res.status(..).json(..)\<close> evaluates to, the value of the
  \<open>return res.status(..).json(..)\<close> paths; the other paths return \<open>undefined\<close>. Every
  exception is caught inside, so the promise is fulfilled on every path. Reading
  \<open>.name\<close> of a parsed \<open>null\<close> throws a TypeError (its text is the engine's).
\<close>

definition decryptApplication :: "services \<Rightarrow> json \<Rightarrow> string \<Rightarrow> int \<Rightarrow> handled" where
  "decryptApplication sv resJson ident now =
     (case getApplicationById sv ident of
        Inl message \<Rightarrow>
          \<lparr>sent = decryptFailed message, events = [StoreRead ident],
           returned = Fulfilled JUndefined\<rparr>
      | Inr None \<Rightarrow>
          \<lparr>sent = \<lparr>status = 404,
                    body = JObj [(''error'', JStr ''Application not found''),
                                 (''applicationId'', JStr ident)]\<rparr>,
           events = [StoreRead ident], returned = Fulfilled resJson\<rparr>
      | Inr (Some app) \<Rightarrow>
          (case db_encrypted_data app of
             None \<Rightarrow>
               \<lparr>sent = \<lparr>status = 400,
                         body = JObj [(''error'', JStr ''No encrypted data found for this application'')]\<rparr>,
                events = [StoreRead ident], returned = Fulfilled resJson\<rparr>
           | Some ciphertext \<Rightarrow>
               (case decryptData sv ciphertext of
                  Inl message \<Rightarrow>
                    \<lparr>sent = decryptFailed message,
                     events = [StoreRead ident, KeyVaultDecrypt ciphertext],
                     returned = Fulfilled JUndefined\<rparr>
                | Inr decryptedText \<Rightarrow>
                    (case JSON_parse sv decryptedText of
                       None \<Rightarrow>
                         \<lparr>sent = \<lparr>status = 500,
                                   body = JObj [(''error'', JStr ''Failed to parse decrypted application data'')]\<rparr>,
                          events = [StoreRead ident, KeyVaultDecrypt ciphertext],
                          returned = Fulfilled resJson\<rparr>
                     | Some JNull \<Rightarrow>
                         \<lparr>sent = decryptFailed ''Cannot read properties of null (reading name)'',
                          events = [StoreRead ident, KeyVaultDecrypt ciphertext],
                          returned = Fulfilled JUndefined\<rparr>
                     | Some decryptedApplicationData \<Rightarrow>
                         \<lparr>sent = \<lparr>status = 200,
                                   body = JObj [(''success'', JBool True),
                                                (''application'', decryptedView app decryptedApplicationData),
                                                (''timestamp'', JDate now)]\<rparr>,
                          events = [StoreRead ident, KeyVaultDecrypt ciphertext],
                          returned = Fulfilled JUndefined\<rparr>))))"

section \<open>The admin routes (backend/routes/adminRoutes.js)\<close>

text \<open>
  A route behind the gate: the handler runs only when all three middlewares call
  \<open>next()\<close>. The result is the response, what the handler did, and the rate-limit store.
\<close>

definition behindGate ::
  "(request \<Rightarrow> response \<times> event list) \<Rightarrow> string option \<Rightarrow> request \<Rightarrow> int \<Rightarrow> rateLimitStore
     \<Rightarrow> response \<times> event list \<times> rateLimitStore" where
  "behindGate handler ADMIN_TOKEN req now g =
     (case adminGate ADMIN_TOKEN req now g of
        (Respond r, g1) \<Rightarrow> (r, [], g1)
      | (Next req1, g1) \<Rightarrow> (let (r, ev) = handler req1 in (r, ev, g1)))"

text \<open>\<open>GET /api/admin/decrypt/:id\<close>.\<close>

definition decryptHandler :: "services \<Rightarrow> json \<Rightarrow> int \<Rightarrow> request \<Rightarrow> response \<times> event list" where
  "decryptHandler sv resJson now req =
     (let idValidation = validateApplicationId (params_id req) in
      if \<not> isValid idValidation then
        (\<lparr>status = 400,
          body = JObj [(''error'', JStr ''Invalid application ID''),
                       (''details'', JArr (map JStr (errors idValidation)))]\<rparr>, [])
      else (let h = decryptApplication sv resJson (params_id req) now in (sent h, events h)))"

definition adminDecrypt ::
  "services \<Rightarrow> string option \<Rightarrow> json \<Rightarrow> request \<Rightarrow> int \<Rightarrow> rateLimitStore
     \<Rightarrow> response \<times> event list \<times> rateLimitStore" where
  "adminDecrypt sv ADMIN_TOKEN resJson req now g =
     behindGate (decryptHandler sv resJson now) ADMIN_TOKEN req now g"

text \<open>
  \<open>POST /api/admin/decrypt-batch\<close>. Each id is handed to \<open>decryptApplication\<close> with the
  stub \<open>res = { status: () => ({ json: () => {} }) }\<close>, whose \<open>json\<close> returns
  \<open>undefined\<close> and drops the response; \<open>Promise.allSettled\<close> collects how each call settled.
\<close>

definition fulfilledValues :: "settled list \<Rightarrow> json list" where
  "fulfilledValues results = concat (map (\<lambda>r. case r of Fulfilled v \<Rightarrow> [v] | Rejected _ \<Rightarrow> []) results)"

definition rejectedReasons :: "settled list \<Rightarrow> json list" where
  "rejectedReasons results = concat (map (\<lambda>r. case r of Fulfilled _ \<Rightarrow> [] | Rejected e \<Rightarrow> [JStr e]) results)"

definition natNum :: "nat \<Rightarrow> json" where
  "natNum n = JNum (Fin (of_nat n))"

definition decryptBatchHandler :: "services \<Rightarrow> int \<Rightarrow> request \<Rightarrow> response \<times> event list" where
  "decryptBatchHandler sv now req =
     (case applicationIds req of
        None \<Rightarrow>
          (\<lparr>status = 400,
            body = JObj [(''error'', JStr ''Invalid application IDs''),
                         (''message'', JStr ''applicationIds must be a non-empty array'')]\<rparr>, [])
      | Some ids \<Rightarrow>
          if length ids = 0 then
            (\<lparr>status = 400,
              body = JObj [(''error'', JStr ''Invalid application IDs''),
                           (''message'', JStr ''applicationIds must be a non-empty array'')]\<rparr>, [])
          else
            (let invalidIds = filter (\<lambda>ident. \<not> isValid (validateApplicationId ident)) ids in
             if length invalidIds > 0 then
               (\<lparr>status = 400,
                 body = JObj [(''error'', JStr ''Invalid application IDs''),
                              (''details'', JArr (map JStr invalidIds))]\<rparr>, [])
             else
               (let calls = map (\<lambda>ident. decryptApplication sv JUndefined ident now) ids;
                    results = map returned calls;
                    successful = fulfilledValues results;
                    failed = rejectedReasons results
                in (\<lparr>status = 200,
                     body = JObj [(''success'', JBool True),
                                  (''results'', JObj [(''successful'', natNum (length successful)),
                                                      (''failed'', natNum (length failed)),
                                                      (''total'', natNum (length ids))]),
                                  (''data'', JArr successful),
                                  (''errors'', JArr failed),
                                  (''timestamp'', JDate now)]\<rparr>,
                    concat (map events calls)))))"

definition adminDecryptBatch ::
  "services \<Rightarrow> string option \<Rightarrow> request \<Rightarrow> int \<Rightarrow> rateLimitStore
     \<Rightarrow> response \<times> event list \<times> rateLimitStore" where
  "adminDecryptBatch sv ADMIN_TOKEN req now g =
     behindGate (decryptBatchHandler sv now) ADMIN_TOKEN req now g"

text \<open>Reading a field of a JSON object, and the names of its fields.\<close>

definition field :: "string \<Rightarrow> json \<Rightarrow> json" where
  "field k j = (case j of JObj kvs \<Rightarrow> (case map_of kvs k of Some v \<Rightarrow> v | None \<Rightarrow> JUndefined) | _ \<Rightarrow> JUndefined)"

definition fieldNames :: "json \<Rightarrow> string list" where
  "fieldNames j = (case j of JObj kvs \<Rightarrow> map fst kvs | _ \<Rightarrow> [])"

section \<open>Submission validation (backend/utils/validation.js)\<close>

text \<open>
  The body of a submission request. A field that is absent is \<open>None\<close>; the fields are
  strings, as the form sends them, so the \<open>typeof\<close> tests of the source never fire.
\<close>

record submission =
  body_encryptedData :: "string option"
  body_iv :: "string option"
  body_name :: "string option"
  body_email :: "string option"
  body_phone :: "string option"
  body_course :: "string option"
  body_department :: "string option"
  body_gpa :: "string option"
  body_documentName :: "string option"

text \<open>A JavaScript string used as a condition: absent and empty are false.\<close>

definition truthy :: "string option \<Rightarrow> bool" where
  "truthy v = (case v of None \<Rightarrow> False | Some s \<Rightarrow> s \<noteq> [])"

definition orEmpty :: "string option \<Rightarrow> string" where
  "orEmpty v = (case v of None \<Rightarrow> [] | Some s \<Rightarrow> s)"

definition plain :: "char \<Rightarrow> bool" where
  "plain c = (\<not> isWhiteSpace c \<and> c \<noteq> CHR ''@'')"

text \<open>
  The regular expression of \<open>isValidEmail\<close>: one \<open>@\<close>; before it at least one character;
  after it a dot with at least one character on each side; no white space and no
  second \<open>@\<close> anywhere.
\<close>

definition isValidEmail :: "string \<Rightarrow> bool" where
  "isValidEmail email =
     (let localPart = takeWhile plain email;
          rest = dropWhile plain email
      in localPart \<noteq> [] \<and> rest \<noteq> [] \<and> hd rest = CHR ''@'' \<and>
         list_all plain (tl rest) \<and>
         CHR ''.'' \<in> set (butlast (tl (tl rest))))"

definition isValidPhone :: "string \<Rightarrow> bool" where
  "isValidPhone phone =
     (let digits = filter isDigit phone in length digits \<ge> 10 \<and> length digits \<le> 15)"

definition isValidGpa :: "string \<Rightarrow> bool" where
  "isValidGpa gpa =
     (let gpaNum = parseFloat gpa in gpaNum \<noteq> NaN \<and> jsGe gpaNum (Fin 0) \<and> jsLe gpaNum (Fin 4))"

text \<open>The refinement of \<open>applicationDataSchema.gpa\<close> (shared/schema.ts).\<close>

definition schemaGpaRefine :: "string \<Rightarrow> bool" where
  "schemaGpaRefine val = (let num = parseFloat val in num \<noteq> NaN \<and> jsGe num (Fin 0) \<and> jsLe num (Fin 4))"

definition validateApplicationData :: "submission \<Rightarrow> validation" where
  "validateApplicationData data =
     (let errs =
        (if \<not> truthy (body_encryptedData data) then [''Encrypted data is required''] else []) @
        (if \<not> truthy (body_iv data) then [''Initialization vector (IV) is required''] else []) @
        (if truthy (body_name data) \<and> length (trim (orEmpty (body_name data))) < 2
         then [''Name must be at least 2 characters long''] else []) @
        (if truthy (body_email data) \<and> \<not> isValidEmail (orEmpty (body_email data))
         then [''Invalid email format''] else []) @
        (if truthy (body_phone data) \<and> \<not> isValidPhone (orEmpty (body_phone data))
         then [''Invalid phone number format''] else []) @
        (if truthy (body_course data) \<and> length (trim (orEmpty (body_course data))) < 2
         then [''Course must be at least 2 characters long''] else []) @
        (if truthy (body_department data) \<and> length (trim (orEmpty (body_department data))) < 2
         then [''Department must be at least 2 characters long''] else []) @
        (if truthy (body_gpa data) \<and> \<not> isValidGpa (orEmpty (body_gpa data))
         then [''GPA must be between 0.0 and 4.0''] else [])
      in \<lparr>isValid = (length errs = 0), errors = errs\<rparr>)"

section \<open>Submitting an application (backend/controllers/applicationController.js)\<close>

text \<open>
  \<open>AzureSqlService.saveApplication\<close>: the new row gets the id \<open>NEWID()\<close> and the time
  \<open>GETDATE()\<close> the database picks (\<open>newId\<close>, \<open>now\<close>); every other column is the
  caller's value. (The column type of \<open>gpa\<close> rounds to two decimals in the database;
  the value is kept as passed.)
\<close>

definition saveApplication ::
  "services \<Rightarrow> application \<Rightarrow> string + (string \<times> services)" where
  "saveApplication sv row =
     (case dbStatus sv of
        DbConnectionFails \<Rightarrow> Inl ''Database connection failed''
      | DbQueryFails \<Rightarrow> Inl ''Failed to save application to database''
      | DbUp \<Rightarrow> Inr (db_id row, sv\<lparr>Applications := Applications sv @ [row]\<rparr>))"

text \<open>
  \<open>ApplicationController.submitApplication\<close>. \<open>atob\<close> is \<open>Buffer.from(_, 'base64')\<close>.
  The caller's \<open>iv\<close> is stored as it came; the request must carry one.
\<close>

definition submitApplication ::
  "(string \<Rightarrow> string) \<Rightarrow> services \<Rightarrow> submission \<Rightarrow> string \<Rightarrow> int \<Rightarrow> response \<times> services" where
  "submitApplication atob sv data newId now =
     (let validationResult = validateApplicationData data in
      if \<not> isValid validationResult then
        (\<lparr>status = 400,
          body = JObj [(''error'', JStr ''Invalid request data''),
                       (''details'', JArr (map JStr (errors validationResult)))]\<rparr>, sv)
      else
        (let applicationData =
               \<lparr>db_id = newId,
                db_name = Some (orEmpty (body_name data)),
                db_email = Some (orEmpty (body_email data)),
                db_phone = Some (orEmpty (body_phone data)),
                db_course = Some (orEmpty (body_course data)),
                db_department = Some (orEmpty (body_department data)),
                db_gpa = Some (orZero (case body_gpa data of None \<Rightarrow> NaN | Some g \<Rightarrow> parseFloat g)),
                db_document_name = Some (orEmpty (body_documentName data)),
                db_encrypted_data = Some (atob (orEmpty (body_encryptedData data))),
                db_iv = body_iv data,
                db_created_at = now\<rparr>
         in case saveApplication sv applicationData of
              Inl message \<Rightarrow>
                (\<lparr>status = 500,
                  body = JObj [(''error'', JStr ''Failed to process application''),
                               (''message'', JStr message)]\<rparr>, sv)
            | Inr (applicationId, sv1) \<Rightarrow>
                (\<lparr>status = 201,
                  body = JObj [(''success'', JBool True),
                               (''message'', JStr ''Application submitted successfully''),
                               (''applicationId'', JStr applicationId),
                               (''timestamp'', JDate now)]\<rparr>, sv1)))"

section \<open>The file store (server/storage.ts)\<close>

record storedApplication =
  app_id :: string
  app_encryptedData :: string
  app_iv :: string
  submittedAt :: int

record insertApplication =
  encryptedData :: string
  iv :: string

datatype storeFile = FileMissing | FileUnreadable | FileHolds "storedApplication list"

text \<open>
  \<open>FileStorage\<close>: the \<open>Map\<close> from id to application, in insertion order (\<open>Map.set\<close> on a
  key that is present replaces the value where it stands: \<open>AList.update\<close>), the
  \<open>initialized\<close> flag and the content of applications.json.
\<close>

record fileStorage =
  applications :: "(string \<times> storedApplication) list"
  initialized :: bool
  fileContent :: storeFile

definition saveToFile :: "fileStorage \<Rightarrow> fileStorage" where
  "saveToFile fs = fs\<lparr>fileContent := FileHolds (map snd (applications fs))\<rparr>"

definition initialize :: "fileStorage \<Rightarrow> fileStorage" where
  "initialize fs =
     (if initialized fs then fs
      else (case fileContent fs of
              FileHolds apps \<Rightarrow>
                fs\<lparr>applications := fold (\<lambda>app m. AList.update (app_id app) app m) apps (applications fs),
                   initialized := True\<rparr>
            | FileMissing \<Rightarrow> (saveToFile fs)\<lparr>initialized := True\<rparr>
            | FileUnreadable \<Rightarrow> fs\<lparr>initialized := True\<rparr>))"

text \<open>\<open>createApplication\<close>; \<open>newId\<close> is \<open>randomUUID()\<close> and \<open>now\<close> is \<open>new Date()\<close>.\<close>

definition createApplication ::
  "fileStorage \<Rightarrow> insertApplication \<Rightarrow> string \<Rightarrow> int \<Rightarrow> storedApplication \<times> fileStorage" where
  "createApplication fs insertApp newId now =
     (let fs1 = initialize fs;
          application = \<lparr>app_id = newId, app_encryptedData = encryptedData insertApp,
                         app_iv = iv insertApp, submittedAt = now\<rparr>;
          fs2 = fs1\<lparr>applications := AList.update newId application (applications fs1)\<rparr>
      in (application, saveToFile fs2))"

text \<open>
  \<open>Array.prototype.sort\<close> with a comparison function: a stable sort, written as the
  insertion sort that keeps an element before the later ones it does not exceed.
\<close>

fun insertBy :: "('a \<Rightarrow> 'a \<Rightarrow> int) \<Rightarrow> 'a \<Rightarrow> 'a list \<Rightarrow> 'a list" where
  "insertBy cmp x [] = [x]"
| "insertBy cmp x (y # ys) = (if cmp x y \<le> 0 then x # y # ys else y # insertBy cmp x ys)"

definition sortBy :: "('a \<Rightarrow> 'a \<Rightarrow> int) \<Rightarrow> 'a list \<Rightarrow> 'a list" where
  "sortBy cmp xs = foldr (insertBy cmp) xs []"

definition getAllApplications :: "fileStorage \<Rightarrow> storedApplication list \<times> fileStorage" where
  "getAllApplications fs =
     (let fs1 = initialize fs
      in (sortBy (\<lambda>a b. submittedAt b - submittedAt a) (map snd (applications fs1)), fs1))"

definition getApplication :: "fileStorage \<Rightarrow> string \<Rightarrow> storedApplication option \<times> fileStorage" where
  "getApplication fs ident =
     (let fs1 = initialize fs in (map_of (applications fs1) ident, fs1))"

section \<open>Statistics (applicationController.js) and analytics (adminController.js)\<close>

text \<open>
  \<open>AzureSqlService.getAllApplications\<close>: the rows by \<open>created_at\<close>, newest first (the
  database leaves the order of equal times open; the stable order is taken here).
\<close>

definition sqlGetAllApplications :: "services \<Rightarrow> string + application list" where
  "sqlGetAllApplications sv =
     (case dbStatus sv of
        DbConnectionFails \<Rightarrow> Inl ''Database connection failed''
      | DbQueryFails \<Rightarrow> Inl ''Failed to retrieve applications from database''
      | DbUp \<Rightarrow> Inr (sortBy (\<lambda>a b. db_created_at b - db_created_at a) (Applications sv)))"

text \<open>
  A counter object \<open>{}\<close> with \<open>obj[key] = (obj[key] || 0) + 1\<close>, keys in order of first
  use. (Keys that name properties of \<open>Object.prototype\<close> are not told apart.)
\<close>

definition bump :: "string \<Rightarrow> (string \<times> nat) list \<Rightarrow> (string \<times> nat) list" where
  "bump key obj = AList.update key (case map_of obj key of None \<Rightarrow> 1 | Some n \<Rightarrow> n + 1) obj"

definition orUnknown :: "string option \<Rightarrow> string" where
  "orUnknown v = (case v of None \<Rightarrow> ''Unknown'' | Some s \<Rightarrow> if s = [] then ''Unknown'' else s)"

text \<open>\<open>parseFloat(app.gpa) || 0\<close> for the number or \<open>null\<close> the driver returns.\<close>

definition gpaOf :: "application \<Rightarrow> jsnum" where
  "gpaOf app = (case db_gpa app of None \<Rightarrow> Fin 0 | Some x \<Rightarrow> orZero x)"

record statistics =
  totalApplications :: nat
  departments :: "(string \<times> nat) list"
  gpaHigh :: nat
  gpaMedium :: nat
  gpaLow :: nat
  averageGpa :: json
  recentApplications :: nat

text \<open>One round of the \<open>forEach\<close> of \<open>getApplicationStats\<close>, on the statistics and \<open>totalGpa\<close>.\<close>

definition statsStep :: "int \<Rightarrow> application \<Rightarrow> statistics \<times> jsnum \<Rightarrow> statistics \<times> jsnum" where
  "statsStep oneWeekAgo app acc =
     (let (stats, totalGpa) = acc;
          gpa = gpaOf app;
          stats1 = stats\<lparr>departments := bump (orUnknown (db_department app)) (departments stats)\<rparr>;
          stats2 = (if jsGe gpa (Fin (7 / 2)) then stats1\<lparr>gpaHigh := gpaHigh stats1 + 1\<rparr>
                    else if jsGe gpa (Fin 3) then stats1\<lparr>gpaMedium := gpaMedium stats1 + 1\<rparr>
                    else stats1\<lparr>gpaLow := gpaLow stats1 + 1\<rparr>);
          stats3 = (if db_created_at app > oneWeekAgo
                    then stats2\<lparr>recentApplications := recentApplications stats2 + 1\<rparr>
                    else stats2)
      in (stats3, jsAdd totalGpa gpa))"

text \<open>The statistics \<open>getApplicationStats\<close> computes from the rows, at clock value \<open>now\<close>.\<close>

definition computeStats :: "application list \<Rightarrow> int \<Rightarrow> statistics" where
  "computeStats apps now =
     (let oneWeekAgo = now - 7 * 24 * 60 * 60 * 1000;
          (stats, totalGpa) =
             fold (statsStep oneWeekAgo) apps
               (\<lparr>totalApplications = length apps, departments = [], gpaHigh = 0, gpaMedium = 0,
                 gpaLow = 0, averageGpa = JNum (Fin 0), recentApplications = 0\<rparr>, Fin 0)
      in stats\<lparr>averageGpa := (if length apps > 0 then toFixed2 (jsDivLength totalGpa (length apps))
                               else JNum (Fin 0))\<rparr>)"

definition countsJson :: "(string \<times> nat) list \<Rightarrow> json" where
  "countsJson obj = JObj (map (\<lambda>(k, n). (k, natNum n)) obj)"

definition statisticsJson :: "statistics \<Rightarrow> json" where
  "statisticsJson stats =
     JObj [(''totalApplications'', natNum (totalApplications stats)),
           (''departments'', countsJson (departments stats)),
           (''gpaDistribution'', JObj [(''high'', natNum (gpaHigh stats)),
                                       (''medium'', natNum (gpaMedium stats)),
                                       (''low'', natNum (gpaLow stats))]),
           (''averageGpa'', averageGpa stats),
           (''recentApplications'', natNum (recentApplications stats))]"

text \<open>\<open>getApplicationStats\<close>: it reads the rows and the clock, and writes nothing.\<close>

definition getApplicationStats :: "services \<Rightarrow> int \<Rightarrow> response \<times> services" where
  "getApplicationStats sv now =
     (case sqlGetAllApplications sv of
        Inl message \<Rightarrow>
          (\<lparr>status = 500,
            body = JObj [(''error'', JStr ''Failed to generate statistics''),
                         (''message'', JStr message)]\<rparr>, sv)
      | Inr apps \<Rightarrow>
          (\<lparr>status = 200,
            body = JObj [(''success'', JBool True),
                         (''statistics'', statisticsJson (computeStats apps now)),
                         (''timestamp'', JDate now)]\<rparr>, sv))"

text \<open>
  The analytics of \<open>getApplicationAnalytics\<close>. \<open>dailySubmissions\<close> is keyed by the UTC day
  of \<open>created_at\<close> (the source's key is that day's ISO date, shown in the JSON as the
  pair of the day's first millisecond and its count); \<open>pendingReview\<close> stays 0 and
  \<open>weeklyTrend\<close> stays empty.
\<close>

record analytics =
  an_totalApplications :: nat
  an_recentApplications :: nat
  an_pendingReview :: nat
  an_departments :: "(string \<times> nat) list"
  an_courses :: "(string \<times> nat) list"
  an_excellent :: nat
  an_good :: nat
  an_average :: nat
  an_belowAverage :: nat
  an_averageGpa :: json
  an_dailySubmissions :: "(int \<times> nat) list"
  an_monthlyGrowth :: nat
  an_highQuality :: nat
  an_averageQuality :: nat
  an_lowQuality :: nat

definition bumpDay :: "int \<Rightarrow> (int \<times> nat) list \<Rightarrow> (int \<times> nat) list" where
  "bumpDay key obj = AList.update key (case map_of obj key of None \<Rightarrow> 1 | Some n \<Rightarrow> n + 1) obj"

definition analyticsStep :: "int \<Rightarrow> application \<Rightarrow> analytics \<times> jsnum \<Rightarrow> analytics \<times> jsnum" where
  "analyticsStep oneWeekAgo app acc =
     (let (an, totalGpa) = acc;
          gpa = gpaOf app;
          an1 = (if db_created_at app > oneWeekAgo
                 then an\<lparr>an_recentApplications := an_recentApplications an + 1\<rparr> else an);
          an2 = an1\<lparr>an_departments := bump (orUnknown (db_department app)) (an_departments an1)\<rparr>;
          an3 = an2\<lparr>an_courses := bump (orUnknown (db_course app)) (an_courses an2)\<rparr>;
          an4 = (if jsGe gpa (fl (37 / 10)) then an3\<lparr>an_excellent := an_excellent an3 + 1\<rparr>
                 else if jsGe gpa (fl (33 / 10)) then an3\<lparr>an_good := an_good an3 + 1\<rparr>
                 else if jsGe gpa (fl (27 / 10)) then an3\<lparr>an_average := an_average an3 + 1\<rparr>
                 else an3\<lparr>an_belowAverage := an_belowAverage an3 + 1\<rparr>);
          an5 = (if jsGe gpa (Fin (7 / 2)) then an4\<lparr>an_highQuality := an_highQuality an4 + 1\<rparr>
                 else if jsGe gpa (Fin 3) then an4\<lparr>an_averageQuality := an_averageQuality an4 + 1\<rparr>
                 else an4\<lparr>an_lowQuality := an_lowQuality an4 + 1\<rparr>);
          an6 = an5\<lparr>an_dailySubmissions :=
                       bumpDay (db_created_at app div 86400000) (an_dailySubmissions an5)\<rparr>
      in (an6, jsAdd totalGpa gpa))"

definition computeAnalytics :: "application list \<Rightarrow> int \<Rightarrow> analytics" where
  "computeAnalytics apps now =
     (let oneWeekAgo = now - 7 * 24 * 60 * 60 * 1000;
          oneMonthAgo = now - 30 * 24 * 60 * 60 * 1000;
          (an, totalGpa) =
             fold (analyticsStep oneWeekAgo) apps
               (\<lparr>an_totalApplications = length apps, an_recentApplications = 0, an_pendingReview = 0,
                 an_departments = [], an_courses = [], an_excellent = 0, an_good = 0, an_average = 0,
                 an_belowAverage = 0, an_averageGpa = JNum (Fin 0), an_dailySubmissions = [],
                 an_monthlyGrowth = 0, an_highQuality = 0, an_averageQuality = 0, an_lowQuality = 0\<rparr>,
                Fin 0)
      in an\<lparr>an_averageGpa := (if length apps > 0 then toFixed2 (jsDivLength totalGpa (length apps))
                               else JNum (Fin 0)),
            an_monthlyGrowth := length (filter (\<lambda>app. db_created_at app > oneMonthAgo) apps)\<rparr>)"

definition analyticsJson :: "analytics \<Rightarrow> json" where
  "analyticsJson an =
     JObj [(''overview'', JObj [(''totalApplications'', natNum (an_totalApplications an)),
                                (''recentApplications'', natNum (an_recentApplications an)),
                                (''pendingReview'', natNum (an_pendingReview an))]),
           (''demographics'', JObj [(''departments'', countsJson (an_departments an)),
                                    (''courses'', countsJson (an_courses an)),
                                    (''gpaDistribution'',
                                       JObj [(''excellent'', natNum (an_excellent an)),
                                             (''good'', natNum (an_good an)),
                                             (''average'', natNum (an_average an)),
                                             (''belowAverage'', natNum (an_belowAverage an))]),
                                    (''averageGpa'', an_averageGpa an)]),
           (''trends'', JObj [(''dailySubmissions'',
                                 JArr (map (\<lambda>(d, n). JArr [JDate (d * 86400000), natNum n])
                                         (an_dailySubmissions an))),
                              (''weeklyTrend'', JArr []),
                              (''monthlyGrowth'', natNum (an_monthlyGrowth an))]),
           (''quality'', JObj [(''highQualityApplications'', natNum (an_highQuality an)),
                               (''averageQualityApplications'', natNum (an_averageQuality an)),
                               (''lowQualityApplications'', natNum (an_lowQuality an))])]"

text \<open>\<open>getApplicationAnalytics\<close>: it reads the rows and the clock, and writes nothing.\<close>

definition getApplicationAnalytics :: "services \<Rightarrow> int \<Rightarrow> response \<times> services" where
  "getApplicationAnalytics sv now =
     (case sqlGetAllApplications sv of
        Inl message \<Rightarrow>
          (\<lparr>status = 500,
            body = JObj [(''error'', JStr ''Failed to generate analytics''),
                         (''message'', JStr message)]\<rparr>, sv)
      | Inr apps \<Rightarrow>
          (\<lparr>status = 200,
            body = JObj [(''success'', JBool True),
                         (''analytics'', analyticsJson (computeAnalytics apps now)),
                         (''timestamp'', JDate now)]\<rparr>, sv))"

section \<open>Concrete scenarios\<close>

text \<open>An admin request with the default secret, and runs of it at given clock values.\<close>

definition exampleRequest :: request where
  "exampleRequest =
     \<lparr>authorization = Some ''Bearer admin-demo-token-2024'', query_token = None,
      ip = Some ''10.0.0.7'', remoteAddress = None,
      params_id = ''123e4567-e89b-42d3-a456-426614174000'', applicationIds = None,
      isAdmin = False\<rparr>"

definition tenAdmitted :: rateLimitStore where
  "tenAdmitted = fold (\<lambda>t g. snd (adminRateLimit exampleRequest t g)) [0, 1, 2, 3, 4, 5, 6, 7, 8, 9] None"

definition exampleRun :: "(request \<times> int) list" where
  "exampleRun = map (\<lambda>t. (exampleRequest, t)) [1000, 2000, 3000, 4000, 5000, 6000, 7000, 8000, 9000, 10000]"

definition exampleRow :: "string \<Rightarrow> string \<Rightarrow> int \<Rightarrow> application" where
  "exampleRow ident ciphertext created =
     \<lparr>db_id = ident, db_name = Some ''Ada'', db_email = None, db_phone = None,
      db_course = Some ''CS'', db_department = Some ''Eng'', db_gpa = Some (Fin (15 / 4)),
      db_document_name = None, db_encrypted_data = Some ciphertext, db_iv = Some ''AAAAAAAAAAAAAAAA'',
      db_created_at = created\<rparr>"

definition exampleIds :: "string list" where
  "exampleIds =
     [''11111111-1111-4111-8111-111111111111'',
      ''22222222-2222-4222-8222-222222222222'',
      ''33333333-3333-4333-8333-333333333333'',
      ''44444444-4444-4444-8444-444444444444'',
      ''55555555-5555-4555-8555-555555555555'']"

text \<open>
  Five stored submissions; the third one's ciphertext is corrupted, so the key vault's
  decrypt call throws on it. The others decrypt to the JSON text of an empty object.
\<close>

definition exampleServices :: services where
  "exampleServices =
     \<lparr>dbStatus = DbUp,
      Applications =
        [exampleRow ''11111111-1111-4111-8111-111111111111'' ''sealed'' 100,
         exampleRow ''22222222-2222-4222-8222-222222222222'' ''sealed'' 200,
         exampleRow ''33333333-3333-4333-8333-333333333333'' ''corrupted'' 300,
         exampleRow ''44444444-4444-4444-8444-444444444444'' ''sealed'' 400,
         exampleRow ''55555555-5555-4555-8555-555555555555'' ''sealed'' 500],
      kvConfigured = True,
      kvDecrypt = (\<lambda>ciphertext. if ciphertext = ''sealed'' then Some ''{}'' else None),
      JSON_parse = (\<lambda>text. if text = ''{}'' then Some (JObj []) else None)\<rparr>"

definition batchRequest :: "string list \<Rightarrow> request" where
  "batchRequest ids = exampleRequest\<lparr>applicationIds := Some ids\<rparr>"

text \<open>Stands for the Express response object, which \<open>res.json\<close> returns for chaining.\<close>

definition resObject :: json where
  "resObject = JObj []"

text \<open>
  Admin requests: a wrong token, no token, and the valid token with the id of a stored
  submission.
\<close>

definition wrongTokenRequest :: request where
  "wrongTokenRequest =
     exampleRequest\<lparr>authorization := Some ''Bearer not-the-secret'',
                    params_id := ''11111111-1111-4111-8111-111111111111''\<rparr>"

definition noTokenRequest :: request where
  "noTokenRequest =
     exampleRequest\<lparr>authorization := None, params_id := ''11111111-1111-4111-8111-111111111111''\<rparr>"

definition storedIdRequest :: request where
  "storedIdRequest = exampleRequest\<lparr>params_id := ''11111111-1111-4111-8111-111111111111''\<rparr>"

definition exampleSubmission :: "string \<Rightarrow> submission" where
  "exampleSubmission g =
     \<lparr>body_encryptedData = Some ''c2VhbGVk'', body_iv = Some ''AAAAAAAAAAAAAAAA'',
      body_name = Some ''Ada'', body_email = Some ''ada@example.org'', body_phone = Some ''+44 20 7946 0958'',
      body_course = Some ''CS'', body_department = Some ''Eng'', body_gpa = Some g,
      body_documentName = None\<rparr>"

definition emptyStorage :: fileStorage where
  "emptyStorage = \<lparr>applications = [], initialized = False, fileContent = FileMissing\<rparr>"

definition sealedApplication :: insertApplication where
  "sealedApplication = \<lparr>encryptedData = ''c2VhbGVk'', iv = ''AAAAAAAAAAAAAAAA''\<rparr>"

text \<open>Three submissions created one after the other in an empty store.\<close>

definition threeCreated :: "string \<Rightarrow> int \<Rightarrow> string \<Rightarrow> int \<Rightarrow> string \<Rightarrow> int \<Rightarrow> fileStorage" where
  "threeCreated i1 t1 i2 t2 i3 t3 =
     snd (createApplication
            (snd (createApplication
                    (snd (createApplication emptyStorage sealedApplication i1 t1))
                    sealedApplication i2 t2))
            sealedApplication i3 t3)"

text \<open>A submission whose \<open>iv\<close> the caller picked.\<close>

definition callerChosen :: insertApplication where
  "callerChosen = \<lparr>encryptedData = ''c2VhbGVk'', iv = ''Y2FsbGVyLWNob3Nlbg==''\<rparr>"

text \<open>A row created at the epoch.\<close>

definition oldRow :: application where
  "oldRow = exampleRow ''11111111-1111-4111-8111-111111111111'' ''sealed'' 0"

section \<open>The rate limiter's window\<close>

lemma window_adminRateLimit_other:
  "key \<noteq> rateKey req \<Longrightarrow> window (snd (adminRateLimit req now g)) key = window g key"
  by (simp add: adminRateLimit_def window_def Let_def split: option.splits)

lemma window_adminRateLimit_same:
  "window (snd (adminRateLimit req now g)) (rateKey req) =
     (let recent = filter (\<lambda>time. now - time < 60000) (window g (rateKey req))
      in if length recent \<ge> 10 then window g (rateKey req) else recent @ [now])"
  by (simp add: adminRateLimit_def window_def Let_def split: option.splits)

lemma fst_adminRateLimit:
  "fst (adminRateLimit req now g) =
     (if length (filter (\<lambda>time. now - time < 60000) (window g (rateKey req))) \<ge> 10
      then Respond \<lparr>status = 429,
                    body = JObj [(''error'', JStr ''Rate limit exceeded''),
                                 (''message'', JStr ''Too many admin requests. Please try again later.'')]\<rparr>
      else Next req)"
  by (simp add: adminRateLimit_def window_def Let_def split: option.splits)

lemma window_step_le:
  assumes "length (window g key) \<le> 10"
  shows "length (window (snd (adminRateLimit req now g)) key) \<le> 10"
proof (cases "key = rateKey req")
  case False
  then show ?thesis using assms by (simp add: window_adminRateLimit_other)
next
  case True
  then show ?thesis using assms
    by (auto simp: window_adminRateLimit_same Let_def)
qed

lemma reachable_window_le: "reachable g \<Longrightarrow> length (window g key) \<le> 10"
proof (induction rule: reachable.induct)
  case start
  show ?case by (simp add: window_def)
next
  case (step g req now)
  from step.IH show ?case by (rule window_step_le)
qed

lemma validToken_nonempty: "validToken e \<noteq> []"
  by (simp add: validToken_def split: option.splits)

lemma rateKey_isAdmin [simp]: "rateKey (req\<lparr>isAdmin := b\<rparr>) = rateKey req"
  by (simp add: rateKey_def clientIp_def)

lemma adminGate_valid:
  assumes "extractToken req = Some (validToken e)"
  shows "adminGate e req now g = adminRateLimit (req\<lparr>isAdmin := True\<rparr>) now g"
  using assms validToken_nonempty[of e]
  by (simp add: adminGate_def authenticateAdmin_def requireAdmin_def validateAdminToken_def Let_def)

lemma reachable_adminGate: "reachable g \<Longrightarrow> reachable (snd (adminGate e req now g))"
  by (auto simp: adminGate_def split: mw.splits intro: reachable.step)

lemma filter_all_of_full:
  assumes "length xs \<le> n" "n \<le> length (filter P xs)"
  shows "filter P xs = xs"
proof -
  have "length (filter P xs) \<le> length xs" by simp
  with assms have "length (filter P xs) = length xs" by linarith
  then show ?thesis by (metis filter_True length_filter_less less_irrefl linorder_not_le filter_id_conv)
qed

lemma gate_step_same:
  assumes "extractToken req = Some (validToken e)"
  shows "window (snd (adminGate e req now g)) (rateKey req) =
     (let recent = filter (\<lambda>time. now - time < 60000) (window g (rateKey req))
      in if length recent \<ge> 10 then window g (rateKey req) else recent @ [now])"
  using window_adminRateLimit_same[of "req\<lparr>isAdmin := True\<rparr>" now g]
  by (simp add: adminGate_valid[OF assms] Let_def)

lemma gate_step_fst:
  assumes "extractToken req = Some (validToken e)"
  shows "fst (adminGate e req now g) =
     (if length (filter (\<lambda>time. now - time < 60000) (window g (rateKey req))) \<ge> 10
      then Respond \<lparr>status = 429,
                    body = JObj [(''error'', JStr ''Rate limit exceeded''),
                                 (''message'', JStr ''Too many admin requests. Please try again later.'')]\<rparr>
      else Next (req\<lparr>isAdmin := True\<rparr>))"
  using fst_adminRateLimit[of "req\<lparr>isAdmin := True\<rparr>" now g]
  by (simp add: adminGate_valid[OF assms])

lemma runGate_Cons:
  "runGate e ((req, now) # rest) g =
     (fst (adminGate e req now g) # fst (runGate e rest (snd (adminGate e req now g))),
      snd (runGate e rest (snd (adminGate e req now g))))"
  by (simp split: prod.splits)

lemma run_admits:
  assumes "\<forall>r \<in> set (map fst rs). extractToken r = Some (validToken e) \<and> rateKey r = key"
    and "\<forall>t \<in> set (window g key) \<union> set (map snd rs). \<forall>t' \<in> set (map snd rs). t' - t < 60000"
    and "length (window g key) + length rs \<le> 10"
  shows "list_all admitted (fst (runGate e rs g)) \<and> length (fst (runGate e rs g)) = length rs \<and>
         window (snd (runGate e rs g)) key = window g key @ map snd rs"
  using assms
proof (induction rs arbitrary: g)
  case Nil
  then show ?case by simp
next
  case (Cons a rs)
  obtain req now where a: "a = (req, now)" by (cases a)
  have v: "extractToken req = Some (validToken e)" and k: "rateKey req = key"
    using Cons.prems(1) a by auto
  let ?g1 = "snd (adminGate e req now g)"
  have all: "filter (\<lambda>time. now - time < 60000) (window g key) = window g key"
    using Cons.prems(2) a by (auto simp: filter_id_conv)
  have len: "length (window g key) < 10" using Cons.prems(3) by simp
  have w1: "window ?g1 key = window g key @ [now]"
    using gate_step_same[OF v, of now g] all len by (simp add: k Let_def)
  have f1: "admitted (fst (adminGate e req now g))"
    using gate_step_fst[OF v, of now g] all len by (simp add: k admitted_def)
  have p1: "\<forall>r \<in> set (map fst rs). extractToken r = Some (validToken e) \<and> rateKey r = key"
    using Cons.prems(1) by auto
  have p2: "\<forall>t \<in> set (window ?g1 key) \<union> set (map snd rs). \<forall>t' \<in> set (map snd rs). t' - t < 60000"
    using Cons.prems(2) a by (auto simp: w1)
  have p3: "length (window ?g1 key) + length rs \<le> 10"
    using Cons.prems(3) by (simp add: w1)
  from Cons.IH[OF p1 p2 p3] f1 w1 show ?case
    by (simp add: a runGate_Cons del: runGate.simps)
qed


lemma reachable_fold:
  "reachable g \<Longrightarrow> reachable (fold (\<lambda>t g. snd (adminRateLimit req t g)) ts g)"
  by (induction ts arbitrary: g) (auto intro: reachable.step)

lemma reachable_runGate: "reachable g \<Longrightarrow> reachable (snd (runGate e rs g))"
proof (induction rs arbitrary: g)
  case Nil
  then show ?case by simp
next
  case (Cons a rs)
  obtain req now where a: "a = (req, now)" by (cases a)
  from Cons.prems have "reachable (snd (adminGate e req now g))" by (rule reachable_adminGate)
  then have "reachable (snd (runGate e rs (snd (adminGate e req now g))))" by (rule Cons.IH)
  then show ?case by (simp add: a runGate_Cons del: runGate.simps)
qed

text \<open>
  Claim C10. In every state the process can reach, no caller's window holds more than 10
  timestamps. A request is admitted exactly when fewer than 10 stored timestamps are
  younger than 60 seconds, and only then is its timestamp appended (to the pruned
  window). A rejected request gets 429 and leaves every window as it was, so being
  denied does not lengthen the lockout.
\<close>

theorem rate_limit_window_invariant:
  assumes "reachable g"
  shows "length (window g key) \<le> 10 \<and>
     (admitted (fst (adminRateLimit req now g)) \<longleftrightarrow>
        length (filter (\<lambda>time. now - time < 60000) (window g (rateKey req))) < 10) \<and>
     (admitted (fst (adminRateLimit req now g)) \<longrightarrow>
        window (snd (adminRateLimit req now g)) (rateKey req) =
          filter (\<lambda>time. now - time < 60000) (window g (rateKey req)) @ [now]) \<and>
     (\<not> admitted (fst (adminRateLimit req now g)) \<longrightarrow>
        rejectedWith 429 (fst (adminRateLimit req now g)) \<and>
        window (snd (adminRateLimit req now g)) key = window g key)"
proof -
  have bound: "length (window g key) \<le> 10"
    using assms by (rule reachable_window_le)
  have adm: "admitted (fst (adminRateLimit req now g)) \<longleftrightarrow>
        length (filter (\<lambda>time. now - time < 60000) (window g (rateKey req))) < 10"
    by (simp add: fst_adminRateLimit admitted_def)
  have app: "admitted (fst (adminRateLimit req now g)) \<longrightarrow>
        window (snd (adminRateLimit req now g)) (rateKey req) =
          filter (\<lambda>time. now - time < 60000) (window g (rateKey req)) @ [now]"
    using adm by (simp add: window_adminRateLimit_same Let_def)
  have rej: "\<not> admitted (fst (adminRateLimit req now g)) \<longrightarrow>
        rejectedWith 429 (fst (adminRateLimit req now g)) \<and>
        window (snd (adminRateLimit req now g)) key = window g key"
  proof
    assume n: "\<not> admitted (fst (adminRateLimit req now g))"
    then have full: "length (filter (\<lambda>time. now - time < 60000) (window g (rateKey req))) \<ge> 10"
      using adm by simp
    then have r: "rejectedWith 429 (fst (adminRateLimit req now g))"
      by (simp add: fst_adminRateLimit rejectedWith_def)
    have "window (snd (adminRateLimit req now g)) key = window g key"
    proof (cases "key = rateKey req")
      case True
      then show ?thesis using full by (simp add: window_adminRateLimit_same Let_def)
    next
      case False
      then show ?thesis by (rule window_adminRateLimit_other)
    qed
    with r show "rejectedWith 429 (fst (adminRateLimit req now g)) \<and>
        window (snd (adminRateLimit req now g)) key = window g key" by simp
  qed
  from bound adm app rej show ?thesis by blast
qed

lemma window_None: "window None key = []"
  by (simp add: window_def)

lemma window_tenAdmitted: "window tenAdmitted (rateKey exampleRequest) = [0, 1, 2, 3, 4, 5, 6, 7, 8, 9]"
  by (simp add: tenAdmitted_def window_adminRateLimit_same Let_def window_None)

theorem rate_limit_window_invariant_witness:
  "reachable tenAdmitted \<and>
   length (window tenAdmitted (rateKey exampleRequest)) = 10 \<and>
   rejectedWith 429 (fst (adminRateLimit exampleRequest 10 tenAdmitted)) \<and>
   window (snd (adminRateLimit exampleRequest 10 tenAdmitted)) (rateKey exampleRequest) =
     [0, 1, 2, 3, 4, 5, 6, 7, 8, 9] \<and>
   admitted (fst (adminRateLimit exampleRequest 60000 tenAdmitted)) \<and>
   window (snd (adminRateLimit exampleRequest 60000 tenAdmitted)) (rateKey exampleRequest) =
     [1, 2, 3, 4, 5, 6, 7, 8, 9, 60000]"
proof -
  have r: "reachable tenAdmitted"
    unfolding tenAdmitted_def by (rule reachable_fold) (rule reachable.start)
  have a: "\<not> admitted (fst (adminRateLimit exampleRequest 10 tenAdmitted))"
    by (simp add: fst_adminRateLimit window_tenAdmitted admitted_def)
  have b: "admitted (fst (adminRateLimit exampleRequest 60000 tenAdmitted))"
    by (simp add: fst_adminRateLimit window_tenAdmitted admitted_def)
  from rate_limit_window_invariant[OF r, of "rateKey exampleRequest" exampleRequest 10] a
       rate_limit_window_invariant[OF r, of "rateKey exampleRequest" exampleRequest 60000] b r
  show ?thesis by (simp add: window_tenAdmitted)
qed

lemma runGate_append:
  "runGate e (xs @ ys) g =
     (fst (runGate e xs g) @ fst (runGate e ys (snd (runGate e xs g))),
      snd (runGate e ys (snd (runGate e xs g))))"
proof (induction xs arbitrary: g)
  case Nil
  show ?case by simp
next
  case (Cons a xs)
  obtain req now where a: "a = (req, now)" by (cases a)
  show ?case using Cons.IH[of "snd (adminGate e req now g)"]
    by (simp add: a runGate_Cons del: runGate.simps)
qed

lemma gate_prunes:
  assumes "reachable g" and v: "extractToken req = Some (validToken e)"
  shows "\<forall>t \<in> set (window (snd (adminGate e req now g)) (rateKey req)). now - t < 60000"
proof (cases "length (filter (\<lambda>time. now - time < 60000) (window g (rateKey req))) \<ge> 10")
  case True
  have "length (window g (rateKey req)) \<le> 10" using assms(1) by (rule reachable_window_le)
  then have "filter (\<lambda>time. now - time < 60000) (window g (rateKey req)) = window g (rateKey req)"
    using True by (rule filter_all_of_full)
  then have "\<forall>t \<in> set (window g (rateKey req)). now - t < 60000"
    by (simp add: filter_id_conv)
  then show ?thesis using True by (simp add: gate_step_same[OF v] Let_def)
next
  case False
  then show ?thesis by (simp add: gate_step_same[OF v] Let_def)
qed

text \<open>
  Claim C3. A caller with the valid credential whose window holds nothing recent sends
  ten requests and an eleventh, all within 60 seconds of each other: the ten are
  admitted, the eleventh is answered 429, and the window holds the ten timestamps. A
  twelfth request, served when one of the ten is 60 seconds old or older, is admitted
  again, and the window it leaves holds only timestamps younger than 60 seconds. That
  holds after every check of a request with the valid credential, in every state the
  process can reach: the pruning is part of the check.
\<close>

theorem sliding_window_ten_per_minute:
  assumes reach: "reachable g"
    and len: "length rs = 10"
    and callers: "\<forall>r \<in> set (map fst rs) \<union> {r11, r12}.
                    extractToken r = Some (validToken ADMIN_TOKEN) \<and> rateKey r = key"
    and fresh: "\<forall>old \<in> set (window g key). \<forall>t \<in> set (map snd rs) \<union> {t11}. \<not> (t - old < 60000)"
    and together: "\<forall>t \<in> set (map snd rs) \<union> {t11}. \<forall>t' \<in> set (map snd rs) \<union> {t11}. t' - t < 60000"
    and later: "\<exists>t \<in> set (map snd rs). \<not> (t12 - t < 60000)"
  shows "list_all admitted (take 10 (fst (runGate ADMIN_TOKEN (rs @ [(r11, t11)]) g))) \<and>
         rejectedWith 429 (fst (runGate ADMIN_TOKEN (rs @ [(r11, t11)]) g) ! 10) \<and>
         window (snd (runGate ADMIN_TOKEN (rs @ [(r11, t11)]) g)) key = map snd rs \<and>
         admitted (fst (adminGate ADMIN_TOKEN r12 t12 (snd (runGate ADMIN_TOKEN (rs @ [(r11, t11)]) g)))) \<and>
         (\<forall>t \<in> set (window (snd (adminGate ADMIN_TOKEN r12 t12
                                     (snd (runGate ADMIN_TOKEN (rs @ [(r11, t11)]) g)))) key).
            t12 - t < 60000) \<and>
         (\<forall>g' r now. reachable g' \<and> extractToken r = Some (validToken ADMIN_TOKEN) \<longrightarrow>
            (\<forall>t \<in> set (window (snd (adminGate ADMIN_TOKEN r now g')) (rateKey r)). now - t < 60000))"
proof -
  let ?P = "\<lambda>r. extractToken r = Some (validToken ADMIN_TOKEN) \<and> rateKey r = key"
  obtain a rs' where rs: "rs = a # rs'" using len by (cases rs) auto
  obtain r1 t1 where a: "a = (r1, t1)" by (cases a)
  have v1: "extractToken r1 = Some (validToken ADMIN_TOKEN)" and k1: "rateKey r1 = key"
    using callers rs a by auto
  have v11: "extractToken r11 = Some (validToken ADMIN_TOKEN)" and k11: "rateKey r11 = key"
    using callers by auto
  have v12: "extractToken r12 = Some (validToken ADMIN_TOKEN)" and k12: "rateKey r12 = key"
    using callers by auto
  let ?g1 = "snd (adminGate ADMIN_TOKEN r1 t1 g)"
  let ?g10 = "snd (runGate ADMIN_TOKEN rs' ?g1)"
  let ?g11 = "snd (adminGate ADMIN_TOKEN r11 t11 ?g10)"
  \<comment> \<open>the first request finds nothing recent\<close>
  have none: "filter (\<lambda>time. t1 - time < 60000) (window g key) = []"
    using fresh rs a by (auto simp: filter_empty_conv)
  have w1: "window ?g1 key = [t1]"
    using gate_step_same[OF v1, of t1 g] none by (simp add: k1 Let_def)
  have f1: "admitted (fst (adminGate ADMIN_TOKEN r1 t1 g))"
    using gate_step_fst[OF v1, of t1 g] none by (simp add: k1 admitted_def)
  \<comment> \<open>the next nine join it\<close>
  have p1: "\<forall>r \<in> set (map fst rs'). ?P r" using callers rs by auto
  have p2: "\<forall>t \<in> set (window ?g1 key) \<union> set (map snd rs'). \<forall>t' \<in> set (map snd rs'). t' - t < 60000"
    using together rs a by (auto simp: w1)
  have p3: "length (window ?g1 key) + length rs' \<le> 10" using len rs by (simp add: w1)
  from run_admits[OF p1 p2 p3]
  have adm9: "list_all admitted (fst (runGate ADMIN_TOKEN rs' ?g1))"
    and len9: "length (fst (runGate ADMIN_TOKEN rs' ?g1)) = length rs'"
    and w10: "window ?g10 key = map snd rs"
    by (simp_all add: w1 rs a)
  \<comment> \<open>the eleventh is refused and changes nothing\<close>
  have full: "filter (\<lambda>time. t11 - time < 60000) (map snd rs) = map snd rs"
    using together by (auto simp: filter_id_conv)
  have f11: "rejectedWith 429 (fst (adminGate ADMIN_TOKEN r11 t11 ?g10))"
    using gate_step_fst[OF v11, of t11 ?g10] full len by (simp add: k11 w10 rejectedWith_def)
  have w11: "window ?g11 key = map snd rs"
    using gate_step_same[OF v11, of t11 ?g10] full len by (simp add: k11 w10 Let_def)
  \<comment> \<open>the whole run\<close>
  have run: "runGate ADMIN_TOKEN (rs @ [(r11, t11)]) g =
        (fst (adminGate ADMIN_TOKEN r1 t1 g) # fst (runGate ADMIN_TOKEN rs' ?g1)
           @ [fst (adminGate ADMIN_TOKEN r11 t11 ?g10)], ?g11)"
    by (simp add: rs a runGate_Cons runGate_append del: runGate.simps(2))
  have l9: "length (fst (runGate ADMIN_TOKEN rs' ?g1)) = 9" using len9 len rs by simp
  have c1: "list_all admitted (take 10 (fst (runGate ADMIN_TOKEN (rs @ [(r11, t11)]) g)))"
    using f1 adm9 l9 by (simp add: run)
  have c2: "rejectedWith 429 (fst (runGate ADMIN_TOKEN (rs @ [(r11, t11)]) g) ! 10)"
    using f11 l9 by (simp add: run nth_append)
  have c3: "window (snd (runGate ADMIN_TOKEN (rs @ [(r11, t11)]) g)) key = map snd rs"
    using w11 by (simp add: run)
  \<comment> \<open>once a stored timestamp has left the window, the caller is admitted again\<close>
  obtain told where told: "told \<in> set (map snd rs)" "\<not> (t12 - told < 60000)"
    using later by blast
  have "length (filter (\<lambda>time. t12 - time < 60000) (map snd rs)) < length (map snd rs)"
    using told by (rule length_filter_less)
  then have short: "length (filter (\<lambda>time. t12 - time < 60000) (window ?g11 key)) < 10"
    using len by (simp add: w11)
  have c4: "admitted (fst (adminGate ADMIN_TOKEN r12 t12 (snd (runGate ADMIN_TOKEN (rs @ [(r11, t11)]) g))))"
    using gate_step_fst[OF v12, of t12 ?g11] short by (simp add: run k12 admitted_def)
  have "reachable (snd (runGate ADMIN_TOKEN (rs @ [(r11, t11)]) g))"
    using reach by (rule reachable_runGate)
  from gate_prunes[OF this v12, of t12]
  have c5: "\<forall>t \<in> set (window (snd (adminGate ADMIN_TOKEN r12 t12
                                     (snd (runGate ADMIN_TOKEN (rs @ [(r11, t11)]) g)))) key).
            t12 - t < 60000"
    by (simp add: k12)
  have c6: "\<forall>g' r now. reachable g' \<and> extractToken r = Some (validToken ADMIN_TOKEN) \<longrightarrow>
            (\<forall>t \<in> set (window (snd (adminGate ADMIN_TOKEN r now g')) (rateKey r)). now - t < 60000)"
    using gate_prunes by blast
  from c1 c2 c3 c4 c5 c6 show ?thesis by blast
qed


theorem sliding_window_ten_per_minute_witness:
  "list_all admitted (take 10 (fst (runGate None (exampleRun @ [(exampleRequest, 11000)]) None))) \<and>
   rejectedWith 429 (fst (runGate None (exampleRun @ [(exampleRequest, 11000)]) None) ! 10) \<and>
   window (snd (runGate None (exampleRun @ [(exampleRequest, 11000)]) None)) (rateKey exampleRequest) =
     [1000, 2000, 3000, 4000, 5000, 6000, 7000, 8000, 9000, 10000] \<and>
   admitted (fst (adminGate None exampleRequest 61000
                    (snd (runGate None (exampleRun @ [(exampleRequest, 11000)]) None))))"
proof -
  have tok: "extractToken exampleRequest = Some (validToken None)"
    by (simp add: exampleRequest_def extractToken_def validToken_def)
  have h1: "reachable None" by (rule reachable.start)
  have h2: "length exampleRun = 10" by (simp add: exampleRun_def)
  have h3: "\<forall>r \<in> set (map fst exampleRun) \<union> {exampleRequest, exampleRequest}.
              extractToken r = Some (validToken None) \<and> rateKey r = rateKey exampleRequest"
    using tok by (simp add: exampleRun_def)
  have h4: "\<forall>old \<in> set (window None (rateKey exampleRequest)).
              \<forall>t \<in> set (map snd exampleRun) \<union> {11000}. \<not> (t - old < 60000)"
    by (simp add: window_None)
  have h5: "\<forall>t \<in> set (map snd exampleRun) \<union> {11000}.
              \<forall>t' \<in> set (map snd exampleRun) \<union> {11000}. t' - t < 60000"
    by (simp add: exampleRun_def)
  have h6: "\<exists>t \<in> set (map snd exampleRun). \<not> (61000 - t < 60000)"
    by (simp add: exampleRun_def)
  from sliding_window_ten_per_minute[OF h1 h2 h3 h4 h5 h6]
  show ?thesis by (simp add: exampleRun_def)
qed

lemma exampleIds_valid: "list_all (\<lambda>i. isValid (validateApplicationId i)) exampleIds"
  by (simp add: exampleIds_def validateApplicationId_def isValidUuid_def isHex_def)

lemma decryptApplication_fulfilled:
  "\<exists>v. returned (decryptApplication sv resJson ident now) = Fulfilled v"
  by (simp add: decryptApplication_def split: sum.splits option.splits json.splits)

lemma length_settled:
  "length (fulfilledValues rs) + length (rejectedReasons rs) = length rs"
  by (induction rs) (auto simp: fulfilledValues_def rejectedReasons_def split: settled.splits)

lemma rejectedReasons_decrypt:
  "rejectedReasons (map (returned \<circ> (\<lambda>i. decryptApplication sv resJson i now)) ids) = []"
proof (induction ids)
  case Nil
  show ?case by (simp add: rejectedReasons_def)
next
  case (Cons i ids)
  obtain v where "returned (decryptApplication sv resJson i now) = Fulfilled v"
    using decryptApplication_fulfilled by blast
  then show ?case using Cons.IH by (simp add: rejectedReasons_def)
qed

lemma fulfilledValues_decrypt:
  "length (fulfilledValues (map (returned \<circ> (\<lambda>i. decryptApplication sv resJson i now)) ids)) = length ids"
  using length_settled[of "map (returned \<circ> (\<lambda>i. decryptApplication sv resJson i now)) ids"]
  by (simp add: rejectedReasons_decrypt)

lemma decryptBatchHandler_valid:
  assumes "applicationIds req = Some ids" and "ids \<noteq> []"
    and "list_all (\<lambda>i. isValid (validateApplicationId i)) ids"
  shows "decryptBatchHandler sv now req =
     (let calls = map (\<lambda>ident. decryptApplication sv JUndefined ident now) ids;
          results = map returned calls
      in (\<lparr>status = 200,
           body = JObj [(''success'', JBool True),
                        (''results'', JObj [(''successful'', natNum (length (fulfilledValues results))),
                                            (''failed'', natNum (length (rejectedReasons results))),
                                            (''total'', natNum (length ids))]),
                        (''data'', JArr (fulfilledValues results)),
                        (''errors'', JArr (rejectedReasons results)),
                        (''timestamp'', JDate now)]\<rparr>,
          concat (map events calls)))"
proof -
  have "filter (\<lambda>ident. \<not> isValid (validateApplicationId ident)) ids = []"
    using assms(3) by (simp add: filter_empty_conv list_all_iff)
  then show ?thesis using assms(1,2)
    by (simp add: decryptBatchHandler_def Let_def)
qed

lemma decrypt_corrupted:
  "sent (decryptApplication exampleServices JUndefined ''33333333-3333-4333-8333-333333333333'' 0) =
     decryptFailed ''Failed to decrypt data with Azure Key Vault''"
  by (simp add: decryptApplication_def getApplicationById_def decryptData_def exampleServices_def
      exampleRow_def)

text \<open>
  Claim C1. Five well-formed ids, the third with a corrupted ciphertext: decrypting the
  third alone fails inside the controller, whose catch block answers 500 on the stub
  response and returns normally; the batch then reports 5 successful and 0 failed, with
  nothing under errors.
\<close>

theorem batch_reports_corrupted_as_success:
  "status (sent (decryptApplication exampleServices JUndefined ''33333333-3333-4333-8333-333333333333'' 0)) = 500 \<and>
   status (fst (decryptBatchHandler exampleServices 0 (batchRequest exampleIds))) = 200 \<and>
   field ''results'' (body (fst (decryptBatchHandler exampleServices 0 (batchRequest exampleIds)))) =
     JObj [(''successful'', natNum 5), (''failed'', natNum 0), (''total'', natNum 5)] \<and>
   field ''errors'' (body (fst (decryptBatchHandler exampleServices 0 (batchRequest exampleIds)))) = JArr []"
proof -
  have ids: "applicationIds (batchRequest exampleIds) = Some exampleIds"
    by (simp add: batchRequest_def)
  have ne: "exampleIds \<noteq> []" and len: "length exampleIds = 5"
    by (simp_all add: exampleIds_def)
  show ?thesis
    by (simp add: decryptBatchHandler_valid[OF ids ne exampleIds_valid] decrypt_corrupted
        decryptFailed_def Let_def field_def rejectedReasons_decrypt fulfilledValues_decrypt len)
qed


text \<open>
  Claim C2, as stated, fails on a list that holds an ill-formed id: the route answers
  400 before any id is decrypted (the well-formed one beside it included) and reports
  no counts.
\<close>

theorem batch_refuses_malformed_id:
  "applicationIds (batchRequest [''11111111-1111-4111-8111-111111111111'', ''42'']) =
     Some [''11111111-1111-4111-8111-111111111111'', ''42''] \<and>
   status (fst (decryptBatchHandler exampleServices 0
                  (batchRequest [''11111111-1111-4111-8111-111111111111'', ''42'']))) = 400 \<and>
   snd (decryptBatchHandler exampleServices 0
          (batchRequest [''11111111-1111-4111-8111-111111111111'', ''42''])) = [] \<and>
   field ''results'' (body (fst (decryptBatchHandler exampleServices 0
                  (batchRequest [''11111111-1111-4111-8111-111111111111'', ''42''])))) = JUndefined"
  by (simp add: decryptBatchHandler_def batchRequest_def validateApplicationId_def
      isValidUuid_def isHex_def Let_def field_def)

text \<open>
  Claim C2, amended. For a non-empty list of ids that all pass \<open>validateApplicationId\<close>,
  the route answers 200, the two counts it reports add up to the number of ids, which
  is the total it reports, and what the handler did is what each id's own call did, one
  after the other: every id's record is looked up, whatever happened to the others. A
  list that holds an id failing \<open>validateApplicationId\<close> is answered 400 and no id of it
  is looked up.
\<close>

theorem batch_counts_partition_input:
  assumes "applicationIds req = Some ids" and "ids \<noteq> []"
    and "\<forall>i \<in> set ids. isValid (validateApplicationId i)"
  shows "status (fst (decryptBatchHandler sv now req)) = 200 \<and>
         (\<exists>s f. field ''results'' (body (fst (decryptBatchHandler sv now req))) =
                   JObj [(''successful'', natNum s), (''failed'', natNum f),
                         (''total'', natNum (length ids))] \<and>
                 s + f = length ids) \<and>
         snd (decryptBatchHandler sv now req) =
           concat (map (\<lambda>i. events (decryptApplication sv JUndefined i now)) ids) \<and>
         (\<forall>i \<in> set ids. StoreRead i \<in> set (snd (decryptBatchHandler sv now req))) \<and>
         (\<forall>(req'::request) ids'. applicationIds req' = Some ids' \<and>
              (\<exists>i \<in> set ids'. \<not> isValid (validateApplicationId i)) \<longrightarrow>
            status (fst (decryptBatchHandler sv now req')) = 400 \<and>
            snd (decryptBatchHandler sv now req') = [])"
proof -
  have valid: "list_all (\<lambda>i. isValid (validateApplicationId i)) ids"
    using assms(3) by (simp add: list_all_iff)
  note eq = decryptBatchHandler_valid[OF assms(1,2) valid, of sv now]
  let ?results = "map (returned \<circ> (\<lambda>i. decryptApplication sv JUndefined i now)) ids"
  have c1: "status (fst (decryptBatchHandler sv now req)) = 200"
    by (simp add: eq Let_def)
  have "field ''results'' (body (fst (decryptBatchHandler sv now req))) =
          JObj [(''successful'', natNum (length (fulfilledValues ?results))),
                (''failed'', natNum (length (rejectedReasons ?results))),
                (''total'', natNum (length ids))]"
    by (simp add: eq Let_def field_def)
  moreover have "length (fulfilledValues ?results) + length (rejectedReasons ?results) = length ids"
    using length_settled[of ?results] by simp
  ultimately have c2: "\<exists>s f. field ''results'' (body (fst (decryptBatchHandler sv now req))) =
                   JObj [(''successful'', natNum s), (''failed'', natNum f),
                         (''total'', natNum (length ids))] \<and>
                 s + f = length ids"
    by blast
  have c3: "snd (decryptBatchHandler sv now req) =
           concat (map (\<lambda>i. events (decryptApplication sv JUndefined i now)) ids)"
    by (simp add: eq Let_def comp_def)
  have read: "StoreRead i \<in> set (events (decryptApplication sv JUndefined i now))" for i
    by (simp add: decryptApplication_def split: sum.splits option.splits json.splits)
  have c4: "\<forall>i \<in> set ids. StoreRead i \<in> set (snd (decryptBatchHandler sv now req))"
    using read by (auto simp: c3)
  have c5: "\<forall>(req'::request) ids'. applicationIds req' = Some ids' \<and>
              (\<exists>i \<in> set ids'. \<not> isValid (validateApplicationId i)) \<longrightarrow>
            status (fst (decryptBatchHandler sv now req')) = 400 \<and>
            snd (decryptBatchHandler sv now req') = []"
  proof (intro allI impI)
    fix req' :: request and ids'
    assume a: "applicationIds req' = Some ids' \<and> (\<exists>i \<in> set ids'. \<not> isValid (validateApplicationId i))"
    then have "filter (\<lambda>ident. \<not> isValid (validateApplicationId ident)) ids' \<noteq> []"
      by (auto simp: filter_empty_conv)
    then show "status (fst (decryptBatchHandler sv now req')) = 400 \<and>
            snd (decryptBatchHandler sv now req') = []"
      using a by (auto simp: decryptBatchHandler_def Let_def)
  qed
  from c1 c2 c3 c4 c5 show ?thesis by blast
qed

theorem batch_counts_partition_input_witness:
  "status (fst (decryptBatchHandler exampleServices 0 (batchRequest exampleIds))) = 200 \<and>
   (\<exists>s f. field ''results'' (body (fst (decryptBatchHandler exampleServices 0 (batchRequest exampleIds)))) =
             JObj [(''successful'', natNum s), (''failed'', natNum f), (''total'', natNum 5)] \<and>
           s + f = 5) \<and>
   StoreRead ''33333333-3333-4333-8333-333333333333'' \<in>
     set (snd (decryptBatchHandler exampleServices 0 (batchRequest exampleIds))) \<and>
   StoreRead ''44444444-4444-4444-8444-444444444444'' \<in>
     set (snd (decryptBatchHandler exampleServices 0 (batchRequest exampleIds)))"
proof -
  have h1: "applicationIds (batchRequest exampleIds) = Some exampleIds"
    by (simp add: batchRequest_def)
  have h2: "exampleIds \<noteq> []" by (simp add: exampleIds_def)
  have h3: "\<forall>i \<in> set exampleIds. isValid (validateApplicationId i)"
    using exampleIds_valid by (simp add: list_all_iff)
  have len: "length exampleIds = 5" by (simp add: exampleIds_def)
  have m3: "''33333333-3333-4333-8333-333333333333'' \<in> set exampleIds"
    and m4: "''44444444-4444-4444-8444-444444444444'' \<in> set exampleIds"
    by (simp_all add: exampleIds_def)
  from batch_counts_partition_input[OF h1 h2 h3, of exampleServices 0] m3 m4
  show ?thesis unfolding len by blast
qed

lemma adminDecrypt_unfold:
  "adminDecrypt sv e resJson req now g =
     (case fst (adminGate e req now g) of
        Respond r \<Rightarrow> (r, [], snd (adminGate e req now g))
      | Next req1 \<Rightarrow>
          (fst (decryptHandler sv resJson now req1), snd (decryptHandler sv resJson now req1),
           snd (adminGate e req now g)))"
  by (simp add: adminDecrypt_def behindGate_def split: prod.splits mw.splits)

lemma adminGate_unauthenticated:
  assumes "extractToken req = None \<or> extractToken req = Some []"
  shows "\<exists>r. adminGate e req now g = (Respond r, g) \<and> status r = 401"
  using assms by (auto simp: adminGate_def authenticateAdmin_def Let_def)

lemma adminGate_forbidden:
  assumes "extractToken req = Some t" and "t \<noteq> []" and "t \<noteq> validToken e"
  shows "\<exists>r. adminGate e req now g = (Respond r, g) \<and> status r = 403"
  using assms by (simp add: adminGate_def authenticateAdmin_def Let_def validateAdminToken_def)

lemma adminGate_next:
  assumes "adminGate e req now g = (Next req1, g1)"
  shows "extractToken req = Some (validToken e) \<and> req1 = req\<lparr>isAdmin := True\<rparr>"
proof -
  have "authenticateAdmin e req = Next (req\<lparr>isAdmin := True\<rparr>) \<and> extractToken req = Some (validToken e)"
    using assms
    by (auto simp: adminGate_def authenticateAdmin_def Let_def validateAdminToken_def
        split: mw.splits if_splits option.splits)
  then show ?thesis using assms
    by (auto simp: adminGate_def requireAdmin_def adminRateLimit_def Let_def split: if_splits)
qed

lemma adminGate_respond_status:
  assumes "adminGate e req now g = (Respond r, g1)"
  shows "status r = 401 \<or> status r = 403 \<or> status r = 429"
  using assms
  by (auto simp: adminGate_def authenticateAdmin_def requireAdmin_def adminRateLimit_def Let_def
      split: mw.splits if_splits)

lemma bearer_prefix: "take 7 h = ''Bearer '' \<longleftrightarrow> (\<exists>t. h = ''Bearer '' @ t)"
proof
  assume "take 7 h = ''Bearer ''"
  then have "h = ''Bearer '' @ drop 7 h" by (metis append_take_drop_id)
  then show "\<exists>t. h = ''Bearer '' @ t" by blast
next
  assume "\<exists>t. h = ''Bearer '' @ t"
  then show "take 7 h = ''Bearer ''" by auto
qed

lemma delivered_token_nonempty:
  assumes "delivered req"
  shows "extractToken req \<noteq> Some []"
proof
  assume e: "extractToken req = Some []"
  then obtain h where h: "authorization req = Some h" "take 7 h = ''Bearer ''" "drop 7 h = []"
    by (auto simp: extractToken_def split: option.splits if_splits)
  have "h = take 7 h @ drop 7 h" by simp
  then have "h = ''Bearer ''" using h(2,3) by simp
  then show False using assms h(1) by (simp add: delivered_def ows_def)
qed

text \<open>
  Claim C4. For a request as the HTTP parser delivers it: with neither an
  Authorization header nor a \<open>token\<close> query parameter, and more generally whenever no
  credential is supplied (no header that starts with \<open>Bearer \<close> and no non-empty query
  parameter), the answer is 401; when a credential is supplied (the text after
  \<open>Bearer \<close>, otherwise the query parameter) and differs from the configured secret the
  answer is 403; in both cases the store is not read, the key vault is not called and
  the rate-limit store is left alone. The store is read only for a request whose
  credential equals the secret.
\<close>

theorem admin_decrypt_credentials:
  assumes "delivered req"
  shows
  "(authorization req = None \<and> query_token req = None \<longrightarrow>
      status (fst (adminDecrypt sv ADMIN_TOKEN resJson req now g)) = 401 \<and>
      snd (adminDecrypt sv ADMIN_TOKEN resJson req now g) = ([], g)) \<and>
   (extractToken req = None \<longrightarrow>
      status (fst (adminDecrypt sv ADMIN_TOKEN resJson req now g)) = 401 \<and>
      snd (adminDecrypt sv ADMIN_TOKEN resJson req now g) = ([], g)) \<and>
   (\<forall>t. extractToken req = Some t \<and> t \<noteq> validToken ADMIN_TOKEN \<longrightarrow>
      status (fst (adminDecrypt sv ADMIN_TOKEN resJson req now g)) = 403 \<and>
      snd (adminDecrypt sv ADMIN_TOKEN resJson req now g) = ([], g)) \<and>
   (fst (snd (adminDecrypt sv ADMIN_TOKEN resJson req now g)) \<noteq> [] \<longrightarrow>
      extractToken req = Some (validToken ADMIN_TOKEN)) \<and>
   (extractToken req = None \<longleftrightarrow>
      \<not> (\<exists>t. authorization req = Some (''Bearer '' @ t)) \<and> \<not> truthy (query_token req)) \<and>
   (\<forall>t. authorization req = Some (''Bearer '' @ t) \<longrightarrow> extractToken req = Some t \<and> t \<noteq> []) \<and>
   (\<forall>t. \<not> (\<exists>u. authorization req = Some (''Bearer '' @ u)) \<and> query_token req = Some t \<and> t \<noteq> []
        \<longrightarrow> extractToken req = Some t)"
proof -
  let ?r = "adminDecrypt sv ADMIN_TOKEN resJson req now g"
  note ne = delivered_token_nonempty[OF assms]
  have c1: "extractToken req = None \<longrightarrow> status (fst ?r) = 401 \<and> snd ?r = ([], g)"
  proof
    assume "extractToken req = None"
    then have "extractToken req = None \<or> extractToken req = Some []" by simp
    from adminGate_unauthenticated[OF this, of ADMIN_TOKEN now g]
    show "status (fst ?r) = 401 \<and> snd ?r = ([], g)"
      by (auto simp: adminDecrypt_unfold)
  qed
  have c0: "authorization req = None \<and> query_token req = None \<longrightarrow>
      status (fst ?r) = 401 \<and> snd ?r = ([], g)"
    using c1 by (simp add: extractToken_def)
  have c2: "\<forall>t. extractToken req = Some t \<and> t \<noteq> validToken ADMIN_TOKEN \<longrightarrow>
      status (fst ?r) = 403 \<and> snd ?r = ([], g)"
  proof (intro allI impI)
    fix t
    assume a: "extractToken req = Some t \<and> t \<noteq> validToken ADMIN_TOKEN"
    then have "t \<noteq> []" using ne by auto
    with a have "extractToken req = Some t" "t \<noteq> []" "t \<noteq> validToken ADMIN_TOKEN" by simp_all
    from adminGate_forbidden[OF this, of now g]
    show "status (fst ?r) = 403 \<and> snd ?r = ([], g)"
      by (auto simp: adminDecrypt_unfold)
  qed
  have c3: "fst (snd ?r) \<noteq> [] \<longrightarrow> extractToken req = Some (validToken ADMIN_TOKEN)"
  proof
    assume ev: "fst (snd ?r) \<noteq> []"
    obtain m g1 where gate: "adminGate ADMIN_TOKEN req now g = (m, g1)"
      by (cases "adminGate ADMIN_TOKEN req now g")
    show "extractToken req = Some (validToken ADMIN_TOKEN)"
    proof (cases m)
      case (Respond r)
      then show ?thesis using ev gate by (simp add: adminDecrypt_unfold)
    next
      case (Next req1)
      then show ?thesis using adminGate_next gate by blast
    qed
  qed
  have c4: "extractToken req = None \<longleftrightarrow>
      \<not> (\<exists>t. authorization req = Some (''Bearer '' @ t)) \<and> \<not> truthy (query_token req)"
  proof (cases "authorization req")
    case None
    then show ?thesis by (simp add: extractToken_def truthy_def split: option.splits)
  next
    case (Some h)
    show ?thesis
    proof (cases "take 7 h = ''Bearer ''")
      case True
      then obtain t where "h = ''Bearer '' @ t" using bearer_prefix by blast
      then show ?thesis using Some by (simp add: extractToken_def)
    next
      case False
      then have "\<not> (\<exists>t. h = ''Bearer '' @ t)" using bearer_prefix by blast
      then show ?thesis using Some False
        by (simp add: extractToken_def truthy_def split: option.splits)
    qed
  qed
  have c5: "\<forall>t. authorization req = Some (''Bearer '' @ t) \<longrightarrow> extractToken req = Some t \<and> t \<noteq> []"
  proof (intro allI impI)
    fix t
    assume "authorization req = Some (''Bearer '' @ t)"
    then have "extractToken req = Some t" by (simp add: extractToken_def)
    then show "extractToken req = Some t \<and> t \<noteq> []" using ne by auto
  qed
  have c6: "\<forall>t. \<not> (\<exists>u. authorization req = Some (''Bearer '' @ u)) \<and> query_token req = Some t \<and> t \<noteq> []
        \<longrightarrow> extractToken req = Some t"
  proof (intro allI impI)
    fix t
    assume a: "\<not> (\<exists>u. authorization req = Some (''Bearer '' @ u)) \<and> query_token req = Some t \<and> t \<noteq> []"
    then have q: "query_token req = Some t" "t \<noteq> []" by simp_all
    show "extractToken req = Some t"
    proof (cases "authorization req")
      case None
      then show ?thesis using q by (simp add: extractToken_def)
    next
      case (Some h)
      from a have "\<not> (\<exists>u. authorization req = Some (''Bearer '' @ u))" by (rule conjunct1)
      then have "\<not> (\<exists>u. h = ''Bearer '' @ u)" unfolding Some by simp
      then have "take 7 h \<noteq> ''Bearer ''" unfolding bearer_prefix .
      then show ?thesis using q Some by (simp add: extractToken_def)
    qed
  qed
  from c0 c1 c2 c3 c4 c5 c6 show ?thesis by blast
qed

theorem admin_decrypt_credentials_witness:
  "status (fst (adminDecrypt exampleServices None resObject noTokenRequest 0 None)) = 401 \<and>
   snd (adminDecrypt exampleServices None resObject noTokenRequest 0 None) = ([], None) \<and>
   status (fst (adminDecrypt exampleServices None resObject wrongTokenRequest 0 None)) = 403 \<and>
   snd (adminDecrypt exampleServices None resObject wrongTokenRequest 0 None) = ([], None) \<and>
   fst (snd (adminDecrypt exampleServices None resObject storedIdRequest 0 None)) =
     [StoreRead ''11111111-1111-4111-8111-111111111111'', KeyVaultDecrypt ''sealed''] \<and>
   extractToken storedIdRequest = Some (validToken None)"
proof -
  have dn: "delivered noTokenRequest"
    by (simp add: delivered_def noTokenRequest_def exampleRequest_def)
  have dw: "delivered wrongTokenRequest"
    by (simp add: delivered_def ows_def wrongTokenRequest_def exampleRequest_def)
  have n: "authorization noTokenRequest = None \<and> query_token noTokenRequest = None"
    by (simp add: noTokenRequest_def exampleRequest_def)
  have w: "extractToken wrongTokenRequest = Some ''not-the-secret'' \<and> ''not-the-secret'' \<noteq> validToken None"
    by (simp add: wrongTokenRequest_def exampleRequest_def extractToken_def validToken_def)
  have tok: "extractToken storedIdRequest = Some (validToken None)"
    by (simp add: storedIdRequest_def exampleRequest_def extractToken_def validToken_def)
  have valid: "isValid (validateApplicationId ''11111111-1111-4111-8111-111111111111'')"
    by (simp add: validateApplicationId_def isValidUuid_def isHex_def)
  have gate: "fst (adminGate None storedIdRequest 0 None) = Next (storedIdRequest\<lparr>isAdmin := True\<rparr>)"
    by (simp add: adminGate_valid[OF tok] fst_adminRateLimit window_None)
  have pid: "params_id (storedIdRequest\<lparr>isAdmin := True\<rparr>) = ''11111111-1111-4111-8111-111111111111''"
    by (simp add: storedIdRequest_def)
  have ev: "events (decryptApplication exampleServices resObject ''11111111-1111-4111-8111-111111111111'' 0) =
     [StoreRead ''11111111-1111-4111-8111-111111111111'', KeyVaultDecrypt ''sealed'']"
    by (simp add: decryptApplication_def getApplicationById_def decryptData_def exampleServices_def
        exampleRow_def)
  have hd: "snd (decryptHandler exampleServices resObject 0 (storedIdRequest\<lparr>isAdmin := True\<rparr>)) =
     [StoreRead ''11111111-1111-4111-8111-111111111111'', KeyVaultDecrypt ''sealed'']"
    using valid ev by (simp add: decryptHandler_def pid Let_def)
  have s: "fst (snd (adminDecrypt exampleServices None resObject storedIdRequest 0 None)) =
     [StoreRead ''11111111-1111-4111-8111-111111111111'', KeyVaultDecrypt ''sealed'']"
    using gate hd by (simp add: adminDecrypt_unfold)
  have a: "status (fst (adminDecrypt exampleServices None resObject noTokenRequest 0 None)) = 401 \<and>
           snd (adminDecrypt exampleServices None resObject noTokenRequest 0 None) = ([], None)"
    using admin_decrypt_credentials[OF dn, of exampleServices None resObject 0 None] n by blast
  have b: "status (fst (adminDecrypt exampleServices None resObject wrongTokenRequest 0 None)) = 403 \<and>
           snd (adminDecrypt exampleServices None resObject wrongTokenRequest 0 None) = ([], None)"
    using admin_decrypt_credentials[OF dw, of exampleServices None resObject 0 None] w by blast
  from a b s tok show ?thesis by blast
qed

lemma decryptApplication_200:
  assumes "status (sent (decryptApplication sv resJson ident now)) = 200"
  shows "\<exists>app ciphertext plaintext data.
           find (\<lambda>r. db_id r = ident) (Applications sv) = Some app \<and>
           db_encrypted_data app = Some ciphertext \<and>
           decryptData sv ciphertext = Inr plaintext \<and>
           JSON_parse sv plaintext = Some data \<and>
           body (sent (decryptApplication sv resJson ident now)) =
             JObj [(''success'', JBool True),
                   (''application'', decryptedView app data),
                   (''timestamp'', JDate now)]"
  using assms
  by (auto simp: decryptApplication_def getApplicationById_def decryptFailed_def
      split: sum.splits option.splits json.splits dbStatus.splits)

lemma adminDecrypt_200:
  assumes "status (fst (adminDecrypt sv e resJson req now g)) = 200"
  shows "isValid (validateApplicationId (params_id req)) \<and>
         fst (adminDecrypt sv e resJson req now g) = sent (decryptApplication sv resJson (params_id req) now)"
proof -
  obtain m g1 where gate: "adminGate e req now g = (m, g1)"
    by (cases "adminGate e req now g")
  show ?thesis
  proof (cases m)
    case (Respond r)
    then show ?thesis using assms gate adminGate_respond_status[of e req now g r g1]
      by (auto simp: adminDecrypt_unfold)
  next
    case (Next req1)
    then have req1: "req1 = req\<lparr>isAdmin := True\<rparr>" using adminGate_next gate by blast
    show ?thesis using assms gate Next
      by (auto simp: adminDecrypt_unfold decryptHandler_def Let_def req1 split: if_splits)
  qed
qed

text \<open>
  Claim C7. When the admin decrypt route answers 200, the object it sends under
  \<open>application\<close> is built from the stored record with the requested id and the parsed
  plaintext of its ciphertext: it carries the record's id and creation time, the
  decrypted data under \<open>decryptedData\<close>, and exactly the ten fields listed; none of them
  is \<open>encrypted_data\<close> or \<open>iv\<close>.
\<close>

theorem decrypted_view_omits_ciphertext:
  assumes "status (fst (adminDecrypt sv ADMIN_TOKEN resJson req now g)) = 200"
  shows "(\<exists>app ciphertext plaintext data.
            find (\<lambda>r. db_id r = params_id req) (Applications sv) = Some app \<and>
            db_id app = params_id req \<and>
            db_encrypted_data app = Some ciphertext \<and>
            decryptData sv ciphertext = Inr plaintext \<and>
            JSON_parse sv plaintext = Some data \<and>
            field ''application'' (body (fst (adminDecrypt sv ADMIN_TOKEN resJson req now g))) =
              decryptedView app data \<and>
            field ''id'' (decryptedView app data) = JStr (db_id app) \<and>
            field ''createdAt'' (decryptedView app data) = JDate (db_created_at app) \<and>
            field ''decryptedData'' (decryptedView app data) = data) \<and>
         fieldNames (field ''application'' (body (fst (adminDecrypt sv ADMIN_TOKEN resJson req now g)))) =
           [''id'', ''name'', ''email'', ''phone'', ''course'', ''department'', ''gpa'',
            ''documentName'', ''createdAt'', ''decryptedData''] \<and>
         ''encrypted_data'' \<notin> set (fieldNames (field ''application''
              (body (fst (adminDecrypt sv ADMIN_TOKEN resJson req now g))))) \<and>
         ''iv'' \<notin> set (fieldNames (field ''application''
              (body (fst (adminDecrypt sv ADMIN_TOKEN resJson req now g)))))"
proof -
  let ?resp = "fst (adminDecrypt sv ADMIN_TOKEN resJson req now g)"
  from adminDecrypt_200[OF assms]
  have eq: "?resp = sent (decryptApplication sv resJson (params_id req) now)" by simp
  with assms have "status (sent (decryptApplication sv resJson (params_id req) now)) = 200" by simp
  from decryptApplication_200[OF this]
  obtain app ciphertext plaintext data where
    f: "find (\<lambda>r. db_id r = params_id req) (Applications sv) = Some app"
    and c: "db_encrypted_data app = Some ciphertext"
    and d: "decryptData sv ciphertext = Inr plaintext"
    and p: "JSON_parse sv plaintext = Some data"
    and b: "body ?resp = JObj [(''success'', JBool True),
                   (''application'', decryptedView app data),
                   (''timestamp'', JDate now)]"
    unfolding eq by blast
  have i: "db_id app = params_id req" using f by (auto simp: find_Some_iff)
  have v: "field ''application'' (body ?resp) = decryptedView app data"
    by (simp add: b field_def)
  have n: "fieldNames (decryptedView app data) =
           [''id'', ''name'', ''email'', ''phone'', ''course'', ''department'', ''gpa'',
            ''documentName'', ''createdAt'', ''decryptedData'']"
    by (simp add: decryptedView_def fieldNames_def)
  have g1: "field ''id'' (decryptedView app data) = JStr (db_id app)"
    and g2: "field ''createdAt'' (decryptedView app data) = JDate (db_created_at app)"
    and g3: "field ''decryptedData'' (decryptedView app data) = data"
    by (simp_all add: decryptedView_def field_def)
  have m: "''encrypted_data'' \<notin> set (fieldNames (decryptedView app data))"
       "''iv'' \<notin> set (fieldNames (decryptedView app data))"
    by (simp_all add: n)
  from f i c d p v g1 g2 g3 n m show ?thesis unfolding v by blast
qed

theorem decrypted_view_omits_ciphertext_witness:
  "status (fst (adminDecrypt exampleServices None resObject storedIdRequest 0 None)) = 200 \<and>
   fieldNames (field ''application'' (body (fst (adminDecrypt exampleServices None resObject storedIdRequest 0 None)))) =
     [''id'', ''name'', ''email'', ''phone'', ''course'', ''department'', ''gpa'',
      ''documentName'', ''createdAt'', ''decryptedData''] \<and>
   ''encrypted_data'' \<notin> set (fieldNames (field ''application''
      (body (fst (adminDecrypt exampleServices None resObject storedIdRequest 0 None))))) \<and>
   ''iv'' \<notin> set (fieldNames (field ''application''
      (body (fst (adminDecrypt exampleServices None resObject storedIdRequest 0 None)))))"
proof -
  have tok: "extractToken storedIdRequest = Some (validToken None)"
    by (simp add: storedIdRequest_def exampleRequest_def extractToken_def validToken_def)
  have valid: "isValid (validateApplicationId ''11111111-1111-4111-8111-111111111111'')"
    by (simp add: validateApplicationId_def isValidUuid_def isHex_def)
  have gate: "fst (adminGate None storedIdRequest 0 None) = Next (storedIdRequest\<lparr>isAdmin := True\<rparr>)"
    by (simp add: adminGate_valid[OF tok] fst_adminRateLimit window_None)
  have pid: "params_id (storedIdRequest\<lparr>isAdmin := True\<rparr>) = ''11111111-1111-4111-8111-111111111111''"
    by (simp add: storedIdRequest_def)
  have st: "status (sent (decryptApplication exampleServices resObject ''11111111-1111-4111-8111-111111111111'' 0)) = 200"
    by (simp add: decryptApplication_def getApplicationById_def decryptData_def exampleServices_def
        exampleRow_def)
  have hd: "status (fst (decryptHandler exampleServices resObject 0 (storedIdRequest\<lparr>isAdmin := True\<rparr>))) = 200"
    using valid st by (simp add: decryptHandler_def pid Let_def)
  have ok: "status (fst (adminDecrypt exampleServices None resObject storedIdRequest 0 None)) = 200"
    using gate hd by (simp add: adminDecrypt_unfold)
  from decrypted_view_omits_ciphertext[OF ok] ok show ?thesis by blast
qed

lemma pf40: "parseFloat ''4.0'' = Fin 4" by code_simp
lemma pf00: "parseFloat ''0.0'' = Fin 0" by code_simp
lemma pf41: "parseFloat ''4.1'' = Fin (2308094809027379 / 562949953421312)" by code_simp
lemma pfm01: "parseFloat ''-0.1'' = Fin (- (3602879701896397 / 36028797018963968))" by code_simp
lemma pf39: "parseFloat ''3.9'' = Fin (8782019273372467 / 2251799813685248)" by code_simp

lemma in_range_iff:
  "(x \<noteq> NaN \<and> jsGe x (Fin 0) \<and> jsLe x (Fin 4)) \<longleftrightarrow> (\<exists>r. x = Fin r \<and> 0 \<le> r \<and> r \<le> 4)"
  by (cases x) (simp_all add: jsLe_def)

lemma isValidGpa_iff: "isValidGpa g \<longleftrightarrow> (\<exists>r. parseFloat g = Fin r \<and> 0 \<le> r \<and> r \<le> 4)"
  by (simp add: isValidGpa_def Let_def in_range_iff)

lemma gpa_error_iff:
  "''GPA must be between 0.0 and 4.0'' \<in> set (errors (validateApplicationData data)) \<longleftrightarrow>
     truthy (body_gpa data) \<and> \<not> isValidGpa (orEmpty (body_gpa data))"
  by (simp add: validateApplicationData_def Let_def)

lemma validate_exampleSubmission:
  "validateApplicationData (exampleSubmission g) =
     (if isValidGpa g \<or> g = [] then \<lparr>isValid = True, errors = []\<rparr>
      else \<lparr>isValid = False, errors = [''GPA must be between 0.0 and 4.0'']\<rparr>)"
proof -
  have e: "isValidEmail ''ada@example.org''" by code_simp
  have p: "isValidPhone ''+44 20 7946 0958''" by code_simp
  have n: "length (trim ''Ada'') = 3" "length (trim ''CS'') = 2" "length (trim ''Eng'') = 3" by code_simp+
  show ?thesis
    using e p n by (auto simp: validateApplicationData_def exampleSubmission_def Let_def truthy_def orEmpty_def)
qed

lemma pfEmpty: "parseFloat [] = NaN" by code_simp

text \<open>
  Claim C5, as stated, fails for a gpa submitted as the empty string: it does not parse
  to a number and the schema's refinement rejects it, yet \<open>validateApplicationData\<close>
  skips the test for an empty gpa, reports no error, and \<open>submitApplication\<close> stores the
  row with gpa 0.
\<close>

theorem empty_gpa_passes_validation:
  "body_gpa (exampleSubmission []) = Some [] \<and>
   parseFloat [] = NaN \<and>
   \<not> schemaGpaRefine [] \<and>
   validateApplicationData (exampleSubmission []) = \<lparr>isValid = True, errors = []\<rparr> \<and>
   status (fst (submitApplication (\<lambda>s. s) exampleServices (exampleSubmission [])
                  ''66666666-6666-4666-8666-666666666666'' 600)) = 201 \<and>
   db_gpa (last (Applications (snd (submitApplication (\<lambda>s. s) exampleServices (exampleSubmission [])
                  ''66666666-6666-4666-8666-666666666666'' 600)))) = Some (Fin 0)"
proof -
  have v: "validateApplicationData (exampleSubmission []) = \<lparr>isValid = True, errors = []\<rparr>"
    by (simp add: validate_exampleSubmission)
  have g: "body_gpa (exampleSubmission []) = Some []"
    by (simp add: exampleSubmission_def)
  have r: "\<not> schemaGpaRefine []"
    by (simp add: schemaGpaRefine_def pfEmpty)
  have st: "status (fst (submitApplication (\<lambda>s. s) exampleServices (exampleSubmission [])
                  ''66666666-6666-4666-8666-666666666666'' 600)) = 201"
    by (simp add: submitApplication_def Let_def v saveApplication_def exampleServices_def)
  have row: "db_gpa (last (Applications (snd (submitApplication (\<lambda>s. s) exampleServices (exampleSubmission [])
                  ''66666666-6666-4666-8666-666666666666'' 600)))) = Some (Fin 0)"
    by (simp add: submitApplication_def Let_def v saveApplication_def exampleServices_def g pfEmpty
        orZero_def)
  from g pfEmpty r v st row show ?thesis by simp
qed

text \<open>
  Claim C5, amended. \<open>isValidGpa\<close> (and the schema's refinement, the same test) holds of a
  string exactly when \<open>parseFloat\<close> reads a number from it that lies in \<open>[0, 4]\<close>; for a
  non-empty gpa, \<open>validateApplicationData\<close> reports the error that names the GPA exactly
  when it does not, and a valid submission has such a gpa; an absent or empty gpa is not
  tested and gets no GPA error. \<open>4.0\<close> and \<open>0.0\<close> are accepted; \<open>4.1\<close> and \<open>-0.1\<close> are
  rejected, with that error.
\<close>

theorem gpa_accepted_iff_in_range:
  "(isValidGpa g \<longleftrightarrow> (\<exists>r. parseFloat g = Fin r \<and> 0 \<le> r \<and> r \<le> 4)) \<and>
   (schemaGpaRefine g \<longleftrightarrow> isValidGpa g) \<and>
   (g \<noteq> [] \<longrightarrow>
      (''GPA must be between 0.0 and 4.0'' \<in> set (errors (validateApplicationData (data\<lparr>body_gpa := Some g\<rparr>)))
         \<longleftrightarrow> \<not> (\<exists>r. parseFloat g = Fin r \<and> 0 \<le> r \<and> r \<le> 4)) \<and>
      (isValid (validateApplicationData (data\<lparr>body_gpa := Some g\<rparr>))
         \<longrightarrow> (\<exists>r. parseFloat g = Fin r \<and> 0 \<le> r \<and> r \<le> 4))) \<and>
   ''GPA must be between 0.0 and 4.0'' \<notin> set (errors (validateApplicationData (data\<lparr>body_gpa := Some []\<rparr>))) \<and>
   ''GPA must be between 0.0 and 4.0'' \<notin> set (errors (validateApplicationData (data\<lparr>body_gpa := None\<rparr>))) \<and>
   validateApplicationData (exampleSubmission ''4.0'') = \<lparr>isValid = True, errors = []\<rparr> \<and>
   validateApplicationData (exampleSubmission ''0.0'') = \<lparr>isValid = True, errors = []\<rparr> \<and>
   validateApplicationData (exampleSubmission ''4.1'') =
     \<lparr>isValid = False, errors = [''GPA must be between 0.0 and 4.0'']\<rparr> \<and>
   validateApplicationData (exampleSubmission ''-0.1'') =
     \<lparr>isValid = False, errors = [''GPA must be between 0.0 and 4.0'']\<rparr>"
proof -
  let ?in = "\<exists>r. parseFloat g = Fin r \<and> 0 \<le> r \<and> r \<le> 4"
  let ?v = "validateApplicationData (data\<lparr>body_gpa := Some g\<rparr>)"
  have c1: "isValidGpa g \<longleftrightarrow> ?in" by (rule isValidGpa_iff)
  have c2: "schemaGpaRefine g \<longleftrightarrow> isValidGpa g"
    by (simp add: schemaGpaRefine_def isValidGpa_def)
  have c3: "g \<noteq> [] \<longrightarrow>
      (''GPA must be between 0.0 and 4.0'' \<in> set (errors ?v) \<longleftrightarrow> \<not> ?in) \<and> (isValid ?v \<longrightarrow> ?in)"
  proof
    assume ne: "g \<noteq> []"
    have err: "''GPA must be between 0.0 and 4.0'' \<in> set (errors ?v) \<longleftrightarrow> \<not> ?in"
      using ne by (simp add: gpa_error_iff truthy_def orEmpty_def isValidGpa_iff)
    have "isValid ?v \<longrightarrow> errors ?v = []"
      by (simp add: validateApplicationData_def Let_def)
    then have "isValid ?v \<longrightarrow> ?in" using err by auto
    with err show "(''GPA must be between 0.0 and 4.0'' \<in> set (errors ?v) \<longleftrightarrow> \<not> ?in) \<and> (isValid ?v \<longrightarrow> ?in)"
      by simp
  qed
  have a40: "isValidGpa ''4.0''" and a00: "isValidGpa ''0.0''"
    and r41: "\<not> isValidGpa ''4.1''" and rm01: "\<not> isValidGpa ''-0.1''"
    by (simp_all add: isValidGpa_iff pf40 pf00 pf41 pfm01)
  have c4: "validateApplicationData (exampleSubmission ''4.0'') = \<lparr>isValid = True, errors = []\<rparr>"
    using a40 by (simp add: validate_exampleSubmission)
  have c5: "validateApplicationData (exampleSubmission ''0.0'') = \<lparr>isValid = True, errors = []\<rparr>"
    using a00 by (simp add: validate_exampleSubmission)
  have c6: "validateApplicationData (exampleSubmission ''4.1'') =
     \<lparr>isValid = False, errors = [''GPA must be between 0.0 and 4.0'']\<rparr>"
    using r41 by (simp add: validate_exampleSubmission)
  have c7: "validateApplicationData (exampleSubmission ''-0.1'') =
     \<lparr>isValid = False, errors = [''GPA must be between 0.0 and 4.0'']\<rparr>"
    using rm01 by (simp add: validate_exampleSubmission)
  have c8: "''GPA must be between 0.0 and 4.0'' \<notin>
      set (errors (validateApplicationData (data\<lparr>body_gpa := Some []\<rparr>)))"
    and c9: "''GPA must be between 0.0 and 4.0'' \<notin>
      set (errors (validateApplicationData (data\<lparr>body_gpa := None\<rparr>)))"
    by (simp_all add: gpa_error_iff truthy_def)
  from c1 c2 c3 c4 c5 c6 c7 c8 c9 show ?thesis by blast
qed

theorem gpa_accepted_iff_in_range_witness:
  "isValidGpa ''3.9'' \<and>
   ''GPA must be between 0.0 and 4.0'' \<notin>
      set (errors (validateApplicationData ((exampleSubmission ''4.1'')\<lparr>body_gpa := Some ''3.9''\<rparr>))) \<and>
   \<not> isValidGpa ''4.1'' \<and>
   ''GPA must be between 0.0 and 4.0'' \<in>
      set (errors (validateApplicationData ((exampleSubmission ''3.9'')\<lparr>body_gpa := Some ''4.1''\<rparr>)))"
proof -
  have i39: "\<exists>r. parseFloat ''3.9'' = Fin r \<and> 0 \<le> r \<and> r \<le> 4"
    by (rule exI[of _ "8782019273372467 / 2251799813685248"]) (simp add: pf39)
  have i41: "\<not> (\<exists>r. parseFloat ''4.1'' = Fin r \<and> 0 \<le> r \<and> r \<le> 4)" by (simp add: pf41)
  have ne: "''3.9'' \<noteq> []" "''4.1'' \<noteq> []" by simp_all
  from gpa_accepted_iff_in_range[of "''3.9''" "exampleSubmission ''4.1''"]
       gpa_accepted_iff_in_range[of "''4.1''" "exampleSubmission ''3.9''"] i39 i41 ne
  show ?thesis by blast
qed

lemma insertBy_insort_key:
  "insertBy (\<lambda>a b. k b - k a) x ys = insort_key (\<lambda>a. - k a) x ys"
  by (induction ys) simp_all

lemma sortBy_sort_key: "sortBy (\<lambda>a b. k b - k a) xs = sort_key (\<lambda>a. - (k a :: int)) xs"
  by (simp add: sortBy_def sort_key_def insertBy_insort_key[abs_def])

lemma sortBy_descending: "sorted_wrt (\<lambda>a b. k a \<ge> k b) (sortBy (\<lambda>a b. k b - k a) xs)"
proof -
  have "sorted (map (\<lambda>a. - k a) (sort_key (\<lambda>a. - k a) xs))" by (rule sorted_sort_key)
  then show ?thesis
    by (simp add: sortBy_sort_key sorted_wrt_map)
qed

lemma sortBy_mset: "mset (sortBy (\<lambda>a b. k b - k a) xs) = mset xs"
  by (simp add: sortBy_sort_key)

lemma sortBy_stable:
  "filter (\<lambda>a. k a = t) (sortBy (\<lambda>a b. k b - k a) xs) = filter (\<lambda>a. k a = t) xs"
  using sort_key_stable[of "\<lambda>a. - k a" "- t" xs] by (simp add: sortBy_sort_key)

lemma initialize_idem: "initialize (initialize fs) = initialize fs"
  by (simp add: initialize_def saveToFile_def split: storeFile.splits)


lemma applications_threeCreated:
  assumes "i1 \<noteq> i2" "i1 \<noteq> i3" "i2 \<noteq> i3"
  shows "map snd (applications (initialize (threeCreated i1 t1 i2 t2 i3 t3))) =
     [\<lparr>app_id = i1, app_encryptedData = ''c2VhbGVk'', app_iv = ''AAAAAAAAAAAAAAAA'', submittedAt = t1\<rparr>,
      \<lparr>app_id = i2, app_encryptedData = ''c2VhbGVk'', app_iv = ''AAAAAAAAAAAAAAAA'', submittedAt = t2\<rparr>,
      \<lparr>app_id = i3, app_encryptedData = ''c2VhbGVk'', app_iv = ''AAAAAAAAAAAAAAAA'', submittedAt = t3\<rparr>]"
  using assms
  by (simp add: threeCreated_def createApplication_def initialize_def saveToFile_def emptyStorage_def
      sealedApplication_def Let_def)

text \<open>
  Claim C6, as stated, fails for equal timestamps: two submissions created in the same
  millisecond come back in the order they were created, whichever way their ids
  compare. The same two records, stored in the two possible orders, are listed in two
  different orders.
\<close>

theorem ties_follow_insertion_not_id:
  "map (\<lambda>a. (app_id a, submittedAt a))
     (fst (getAllApplications
        (snd (createApplication (snd (createApplication emptyStorage sealedApplication ''bbbbbbbb-bbbb-4bbb-8bbb-bbbbbbbbbbbb'' 5))
                sealedApplication ''aaaaaaaa-aaaa-4aaa-8aaa-aaaaaaaaaaaa'' 5)))) = [(''bbbbbbbb-bbbb-4bbb-8bbb-bbbbbbbbbbbb'', 5), (''aaaaaaaa-aaaa-4aaa-8aaa-aaaaaaaaaaaa'', 5)] \<and>
   map (\<lambda>a. (app_id a, submittedAt a))
     (fst (getAllApplications
        (snd (createApplication (snd (createApplication emptyStorage sealedApplication ''aaaaaaaa-aaaa-4aaa-8aaa-aaaaaaaaaaaa'' 5))
                sealedApplication ''bbbbbbbb-bbbb-4bbb-8bbb-bbbbbbbbbbbb'' 5)))) = [(''aaaaaaaa-aaaa-4aaa-8aaa-aaaaaaaaaaaa'', 5), (''bbbbbbbb-bbbb-4bbb-8bbb-bbbbbbbbbbbb'', 5)]"
  by (simp add: getAllApplications_def createApplication_def initialize_def saveToFile_def
      emptyStorage_def sealedApplication_def sortBy_def Let_def)

text \<open>
  Claim C6, amended. \<open>getAllApplications\<close> returns the stored submissions, each once,
  ordered by \<open>submittedAt\<close> descending; submissions with equal \<open>submittedAt\<close> keep the
  order in which they were stored. Three submissions created at \<open>t1 < t2 < t3\<close> in an
  empty store come back as the third, the second, the first.
\<close>

theorem list_newest_first:
  "sorted_wrt (\<lambda>a b. submittedAt a \<ge> submittedAt b) (fst (getAllApplications fs)) \<and>
   mset (fst (getAllApplications fs)) = mset (map snd (applications (initialize fs))) \<and>
   filter (\<lambda>a. submittedAt a = t) (fst (getAllApplications fs)) =
     filter (\<lambda>a. submittedAt a = t) (map snd (applications (initialize fs))) \<and>
   (t1 < t2 \<and> t2 < t3 \<and> i1 \<noteq> i2 \<and> i1 \<noteq> i3 \<and> i2 \<noteq> i3 \<longrightarrow>
      map (\<lambda>a. (app_id a, submittedAt a)) (fst (getAllApplications (threeCreated i1 t1 i2 t2 i3 t3))) =
        [(i3, t3), (i2, t2), (i1, t1)])"
proof -
  have c1: "sorted_wrt (\<lambda>a b. submittedAt a \<ge> submittedAt b) (fst (getAllApplications fs))"
    by (simp add: getAllApplications_def Let_def sortBy_descending)
  have c2: "mset (fst (getAllApplications fs)) = mset (map snd (applications (initialize fs)))"
    by (simp add: getAllApplications_def Let_def sortBy_mset)
  have c3: "filter (\<lambda>a. submittedAt a = t) (fst (getAllApplications fs)) =
     filter (\<lambda>a. submittedAt a = t) (map snd (applications (initialize fs)))"
    by (simp add: getAllApplications_def Let_def sortBy_stable)
  have c4: "t1 < t2 \<and> t2 < t3 \<and> i1 \<noteq> i2 \<and> i1 \<noteq> i3 \<and> i2 \<noteq> i3 \<longrightarrow>
      map (\<lambda>a. (app_id a, submittedAt a)) (fst (getAllApplications (threeCreated i1 t1 i2 t2 i3 t3))) =
        [(i3, t3), (i2, t2), (i1, t1)]"
  proof
    assume a: "t1 < t2 \<and> t2 < t3 \<and> i1 \<noteq> i2 \<and> i1 \<noteq> i3 \<and> i2 \<noteq> i3"
    then have "map snd (applications (initialize (threeCreated i1 t1 i2 t2 i3 t3))) =
     [\<lparr>app_id = i1, app_encryptedData = ''c2VhbGVk'', app_iv = ''AAAAAAAAAAAAAAAA'', submittedAt = t1\<rparr>,
      \<lparr>app_id = i2, app_encryptedData = ''c2VhbGVk'', app_iv = ''AAAAAAAAAAAAAAAA'', submittedAt = t2\<rparr>,
      \<lparr>app_id = i3, app_encryptedData = ''c2VhbGVk'', app_iv = ''AAAAAAAAAAAAAAAA'', submittedAt = t3\<rparr>]"
      by (intro applications_threeCreated) simp_all
    then show "map (\<lambda>a. (app_id a, submittedAt a)) (fst (getAllApplications (threeCreated i1 t1 i2 t2 i3 t3))) =
        [(i3, t3), (i2, t2), (i1, t1)]"
      using a by (simp add: getAllApplications_def Let_def sortBy_def)
  qed
  from c1 c2 c3 c4 show ?thesis by blast
qed

theorem list_newest_first_witness:
  "map (\<lambda>a. (app_id a, submittedAt a))
     (fst (getAllApplications (threeCreated ''11111111-1111-4111-8111-111111111111'' 1000 ''22222222-2222-4222-8222-222222222222'' 2000 ''33333333-3333-4333-8333-333333333333'' 3000))) =
     [(''33333333-3333-4333-8333-333333333333'', 3000), (''22222222-2222-4222-8222-222222222222'', 2000), (''11111111-1111-4111-8111-111111111111'', 1000)]"
proof -
  have h: "(1000::int) < 2000 \<and> (2000::int) < 3000 \<and> ''11111111-1111-4111-8111-111111111111'' \<noteq> ''22222222-2222-4222-8222-222222222222'' \<and>
           ''11111111-1111-4111-8111-111111111111'' \<noteq> ''33333333-3333-4333-8333-333333333333'' \<and> ''22222222-2222-4222-8222-222222222222'' \<noteq> ''33333333-3333-4333-8333-333333333333''"
    by simp
  from list_newest_first[of emptyStorage 0 1000 2000 3000 "''11111111-1111-4111-8111-111111111111''" "''22222222-2222-4222-8222-222222222222''" "''33333333-3333-4333-8333-333333333333''"] h
  show ?thesis by blast
qed

lemma initialized_initialize: "initialized (initialize fs)"
  by (simp add: initialize_def saveToFile_def split: storeFile.splits)

lemma initialize_done: "initialized fs \<Longrightarrow> initialize fs = fs"
  by (simp add: initialize_def)

lemma createApplication_stored:
  "fst (getApplication (snd (createApplication fs insertApp newId now)) newId) =
     Some \<lparr>app_id = newId, app_encryptedData = encryptedData insertApp,
           app_iv = iv insertApp, submittedAt = now\<rparr>"
proof -
  let ?fs2 = "snd (createApplication fs insertApp newId now)"
  have "initialized ?fs2"
    using initialized_initialize[of fs] by (simp add: createApplication_def Let_def saveToFile_def)
  then have "initialize ?fs2 = ?fs2" by (rule initialize_done)
  then show ?thesis
    by (simp add: getApplication_def Let_def)
       (simp add: createApplication_def Let_def saveToFile_def update_conv')
qed

lemma submit_missing_iv:
  assumes "\<not> truthy (body_iv data)"
  shows "submitApplication atob sv data newId now =
     (\<lparr>status = 400,
       body = JObj [(''error'', JStr ''Invalid request data''),
                    (''details'', JArr (map JStr (errors (validateApplicationData data))))]\<rparr>, sv)"
proof -
  have "''Initialization vector (IV) is required'' \<in> set (errors (validateApplicationData data))"
    using assms by (simp add: validateApplicationData_def Let_def)
  then have "\<not> isValid (validateApplicationData data)"
    by (auto simp: validateApplicationData_def Let_def)
  then show ?thesis by (simp add: submitApplication_def Let_def)
qed

lemma submit_created:
  assumes "status (fst (submitApplication atob sv data newId now)) = 201"
  shows "truthy (body_iv data) \<and>
         Applications (snd (submitApplication atob sv data newId now)) \<noteq> [] \<and>
         butlast (Applications (snd (submitApplication atob sv data newId now))) = Applications sv \<and>
         db_id (last (Applications (snd (submitApplication atob sv data newId now)))) = newId \<and>
         db_iv (last (Applications (snd (submitApplication atob sv data newId now)))) = body_iv data"
proof -
  have t: "truthy (body_iv data)"
  proof (rule ccontr)
    assume "\<not> truthy (body_iv data)"
    from submit_missing_iv[OF this, of atob sv newId now] assms show False by simp
  qed
  have v: "isValid (validateApplicationData data)"
    using assms by (auto simp: submitApplication_def Let_def split: if_splits)
  show ?thesis using assms t v
    by (auto simp: submitApplication_def saveApplication_def Let_def
        split: dbStatus.splits sum.splits prod.splits)
qed

text \<open>
  Claim C8, as stated, fails: the store keeps whatever \<open>iv\<close> the caller sends. A
  submission created with a caller-chosen \<open>iv\<close> is stored and read back with that
  \<open>iv\<close>, and a second one with the same \<open>iv\<close> is accepted as well.
\<close>

theorem stored_iv_is_the_callers:
  "app_iv (fst (createApplication emptyStorage callerChosen ''11111111-1111-4111-8111-111111111111'' 1000)) =
     ''Y2FsbGVyLWNob3Nlbg=='' \<and>
   map app_iv (fst (getAllApplications
     (snd (createApplication
            (snd (createApplication emptyStorage callerChosen ''11111111-1111-4111-8111-111111111111'' 1000))
            callerChosen ''22222222-2222-4222-8222-222222222222'' 2000)))) =
     [''Y2FsbGVyLWNob3Nlbg=='', ''Y2FsbGVyLWNob3Nlbg=='']"
  by (simp add: getAllApplications_def createApplication_def initialize_def saveToFile_def
      emptyStorage_def callerChosen_def sortBy_def Let_def)

text \<open>
  Claim C8, amended. The server generates the id and the timestamp of a submission and
  nothing else: \<open>createApplication\<close> stores, and \<open>getApplication\<close> reads back, the \<open>iv\<close> of
  the request unchanged; \<open>submitApplication\<close> answers 400 and stores nothing when the
  request carries no \<open>iv\<close>, and when it answers 201 the one row it added holds the
  request's \<open>iv\<close>.
\<close>

theorem server_stores_caller_iv:
  "app_iv (fst (createApplication fs insertApp newId now)) = iv insertApp \<and>
   fst (getApplication (snd (createApplication fs insertApp newId now)) newId) =
     Some (fst (createApplication fs insertApp newId now)) \<and>
   (\<not> truthy (body_iv data) \<longrightarrow>
      status (fst (submitApplication atob sv data newId now)) = 400 \<and>
      snd (submitApplication atob sv data newId now) = sv) \<and>
   (status (fst (submitApplication atob sv data newId now)) = 201 \<longrightarrow>
      truthy (body_iv data) \<and>
      butlast (Applications (snd (submitApplication atob sv data newId now))) = Applications sv \<and>
      db_iv (last (Applications (snd (submitApplication atob sv data newId now)))) = body_iv data)"
proof -
  have c1: "app_iv (fst (createApplication fs insertApp newId now)) = iv insertApp"
    by (simp add: createApplication_def Let_def)
  have c2: "fst (getApplication (snd (createApplication fs insertApp newId now)) newId) =
     Some (fst (createApplication fs insertApp newId now))"
    by (simp add: createApplication_stored) (simp add: createApplication_def Let_def)
  have c3: "\<not> truthy (body_iv data) \<longrightarrow>
      status (fst (submitApplication atob sv data newId now)) = 400 \<and>
      snd (submitApplication atob sv data newId now) = sv"
    by (simp add: submit_missing_iv)
  have c4: "status (fst (submitApplication atob sv data newId now)) = 201 \<longrightarrow>
      truthy (body_iv data) \<and>
      butlast (Applications (snd (submitApplication atob sv data newId now))) = Applications sv \<and>
      db_iv (last (Applications (snd (submitApplication atob sv data newId now)))) = body_iv data"
    using submit_created[of atob sv data newId now] by blast
  from c1 c2 c3 c4 show ?thesis by blast
qed

theorem server_stores_caller_iv_witness:
  "status (fst (submitApplication (\<lambda>s. s) exampleServices (exampleSubmission ''3.9'')
                  ''66666666-6666-4666-8666-666666666666'' 600)) = 201 \<and>
   db_iv (last (Applications (snd (submitApplication (\<lambda>s. s) exampleServices (exampleSubmission ''3.9'')
                  ''66666666-6666-4666-8666-666666666666'' 600)))) = Some ''AAAAAAAAAAAAAAAA'' \<and>
   status (fst (submitApplication (\<lambda>s. s) exampleServices ((exampleSubmission ''3.9'')\<lparr>body_iv := None\<rparr>)
                  ''66666666-6666-4666-8666-666666666666'' 600)) = 400 \<and>
   snd (submitApplication (\<lambda>s. s) exampleServices ((exampleSubmission ''3.9'')\<lparr>body_iv := None\<rparr>)
                  ''66666666-6666-4666-8666-666666666666'' 600) = exampleServices"
proof -
  have ok: "status (fst (submitApplication (\<lambda>s. s) exampleServices (exampleSubmission ''3.9'')
                  ''66666666-6666-4666-8666-666666666666'' 600)) = 201"
  proof -
    have "isValidGpa ''3.9''" by code_simp
    then have "isValid (validateApplicationData (exampleSubmission ''3.9''))"
      by (simp add: validate_exampleSubmission)
    then show ?thesis
      by (simp add: submitApplication_def Let_def saveApplication_def exampleServices_def)
  qed
  have iv: "body_iv (exampleSubmission ''3.9'') = Some ''AAAAAAAAAAAAAAAA''"
    by (simp add: exampleSubmission_def)
  have no: "\<not> truthy (body_iv ((exampleSubmission ''3.9'')\<lparr>body_iv := None\<rparr>))"
    by (simp add: truthy_def)
  from server_stores_caller_iv[of emptyStorage callerChosen "''66666666-6666-4666-8666-666666666666''" 600
         "exampleSubmission ''3.9''" "\<lambda>s. s" exampleServices]
       server_stores_caller_iv[of emptyStorage callerChosen "''66666666-6666-4666-8666-666666666666''" 600
         "(exampleSubmission ''3.9'')\<lparr>body_iv := None\<rparr>" "\<lambda>s. s" exampleServices]
       ok iv no
  show ?thesis by simp
qed

lemma statsStep_clock:
  "statsStep w2 app (stats\<lparr>recentApplications := r\<rparr>, tot) =
     ((fst (statsStep w1 app (stats, tot)))
        \<lparr>recentApplications := (if db_created_at app > w2 then r + 1 else r)\<rparr>,
      snd (statsStep w1 app (stats, tot)))"
  by (simp add: statsStep_def Let_def)

lemma fold_statsStep_clock:
  "fold (statsStep w2) apps (stats\<lparr>recentApplications := r\<rparr>, tot) =
     ((fst (fold (statsStep w1) apps (stats, tot)))
        \<lparr>recentApplications := r + length (filter (\<lambda>a. db_created_at a > w2) apps)\<rparr>,
      snd (fold (statsStep w1) apps (stats, tot)))"
proof (induction apps arbitrary: stats r tot)
  case Nil
  show ?case by simp
next
  case (Cons app apps)
  obtain s1 t1 where one: "statsStep w1 app (stats, tot) = (s1, t1)"
    by (cases "statsStep w1 app (stats, tot)")
  have two: "statsStep w2 app (stats\<lparr>recentApplications := r\<rparr>, tot) =
      (s1\<lparr>recentApplications := (if db_created_at app > w2 then r + 1 else r)\<rparr>, t1)"
    using statsStep_clock[where ?w2.0 = w2 and app = app and stats = stats and r = r and tot = tot
        and ?w1.0 = w1]
    by (simp add: one)
  show ?case
    using Cons.IH[where stats = s1 and r = "if db_created_at app > w2 then r + 1 else r" and tot = t1]
    by (simp add: one two)
qed

lemma computeStats_clock:
  "computeStats apps now2 =
     (computeStats apps now1)
       \<lparr>recentApplications :=
          length (filter (\<lambda>a. db_created_at a > now2 - 604800000) apps)\<rparr>"
proof -
  let ?init = "\<lparr>totalApplications = length apps, departments = [], gpaHigh = 0, gpaMedium = 0,
                 gpaLow = 0, averageGpa = JNum (Fin 0), recentApplications = 0\<rparr>"
  let ?w1 = "now1 - 604800000" and ?w2 = "now2 - 604800000"
  obtain s t where f1: "fold (statsStep ?w1) apps (?init, Fin 0) = (s, t)"
    by (cases "fold (statsStep ?w1) apps (?init, Fin 0)")
  have "fold (statsStep ?w2) apps (?init\<lparr>recentApplications := 0\<rparr>, Fin 0) =
      (s\<lparr>recentApplications := 0 + length (filter (\<lambda>a. db_created_at a > ?w2) apps)\<rparr>, t)"
    using fold_statsStep_clock[where ?w2.0 = ?w2 and apps = apps and stats = ?init and r = 0
        and tot = "Fin 0" and ?w1.0 = ?w1]
    by (simp only: f1 fst_conv snd_conv)
  then have f2: "fold (statsStep ?w2) apps (?init, Fin 0) =
      (s\<lparr>recentApplications := length (filter (\<lambda>a. db_created_at a > ?w2) apps)\<rparr>, t)"
    by simp
  show ?thesis
    by (simp add: computeStats_def Let_def f1 f2)
qed


lemma analyticsStep_clock:
  "analyticsStep w2 app (an\<lparr>an_recentApplications := r\<rparr>, tot) =
     ((fst (analyticsStep w1 app (an, tot)))
        \<lparr>an_recentApplications := (if db_created_at app > w2 then r + 1 else r)\<rparr>,
      snd (analyticsStep w1 app (an, tot)))"
  by (simp add: analyticsStep_def Let_def)

lemma fold_analyticsStep_clock:
  "fold (analyticsStep w2) apps (an\<lparr>an_recentApplications := r\<rparr>, tot) =
     ((fst (fold (analyticsStep w1) apps (an, tot)))
        \<lparr>an_recentApplications := r + length (filter (\<lambda>a. db_created_at a > w2) apps)\<rparr>,
      snd (fold (analyticsStep w1) apps (an, tot)))"
proof (induction apps arbitrary: an r tot)
  case Nil
  show ?case by simp
next
  case (Cons app apps)
  obtain s1 t1 where one: "analyticsStep w1 app (an, tot) = (s1, t1)"
    by (cases "analyticsStep w1 app (an, tot)")
  have two: "analyticsStep w2 app (an\<lparr>an_recentApplications := r\<rparr>, tot) =
      (s1\<lparr>an_recentApplications := (if db_created_at app > w2 then r + 1 else r)\<rparr>, t1)"
    using analyticsStep_clock[where ?w2.0 = w2 and app = app and an = an and r = r and tot = tot
        and ?w1.0 = w1]
    by (simp add: one)
  show ?case
    using Cons.IH[where an = s1 and r = "if db_created_at app > w2 then r + 1 else r" and tot = t1]
    by (simp add: one two)
qed

lemma computeAnalytics_clock:
  "computeAnalytics apps now2 =
     (computeAnalytics apps now1)
       \<lparr>an_recentApplications := length (filter (\<lambda>a. db_created_at a > now2 - 604800000) apps),
        an_monthlyGrowth := length (filter (\<lambda>a. db_created_at a > now2 - 2592000000) apps)\<rparr>"
proof -
  let ?init = "\<lparr>an_totalApplications = length apps, an_recentApplications = 0, an_pendingReview = 0,
                 an_departments = [], an_courses = [], an_excellent = 0, an_good = 0, an_average = 0,
                 an_belowAverage = 0, an_averageGpa = JNum (Fin 0), an_dailySubmissions = [],
                 an_monthlyGrowth = 0, an_highQuality = 0, an_averageQuality = 0, an_lowQuality = 0\<rparr>"
  let ?w1 = "now1 - 604800000" and ?w2 = "now2 - 604800000"
  obtain s t where f1: "fold (analyticsStep ?w1) apps (?init, Fin 0) = (s, t)"
    by (cases "fold (analyticsStep ?w1) apps (?init, Fin 0)")
  have "fold (analyticsStep ?w2) apps (?init\<lparr>an_recentApplications := 0\<rparr>, Fin 0) =
      (s\<lparr>an_recentApplications := 0 + length (filter (\<lambda>a. db_created_at a > ?w2) apps)\<rparr>, t)"
    using fold_analyticsStep_clock[where ?w2.0 = ?w2 and apps = apps and an = ?init and r = 0
        and tot = "Fin 0" and ?w1.0 = ?w1]
    by (simp only: f1 fst_conv snd_conv)
  then have f2: "fold (analyticsStep ?w2) apps (?init, Fin 0) =
      (s\<lparr>an_recentApplications := length (filter (\<lambda>a. db_created_at a > ?w2) apps)\<rparr>, t)"
    by simp
  show ?thesis
    by (simp add: computeAnalytics_def Let_def f1 f2)
qed




text \<open>
  Claim C9, as stated, fails for the recent-application counts: they depend on the
  clock the handler reads. One record, created at the epoch, counts as recent when the
  statistics are computed a second later and no longer does eight days later.
\<close>

theorem recent_count_follows_clock:
  "recentApplications (computeStats [oldRow] 1000) = 1 \<and>
   recentApplications (computeStats [oldRow] 691201000) = 0 \<and>
   an_recentApplications (computeAnalytics [oldRow] 1000) = 1 \<and>
   an_recentApplications (computeAnalytics [oldRow] 691201000) = 0"
proof -
  have c: "db_created_at oldRow = 0" by (simp add: oldRow_def exampleRow_def)
  have s1: "recentApplications (computeStats [oldRow] 1000) = 1"
    using computeStats_clock[of "[oldRow]" 1000 0] by (simp add: c)
  have s2: "recentApplications (computeStats [oldRow] 691201000) = 0"
    using computeStats_clock[of "[oldRow]" 691201000 0] by (simp add: c)
  have a1: "an_recentApplications (computeAnalytics [oldRow] 1000) = 1"
    using computeAnalytics_clock[of "[oldRow]" 1000 0] by (simp add: c)
  have a2: "an_recentApplications (computeAnalytics [oldRow] 691201000) = 0"
    using computeAnalytics_clock[of "[oldRow]" 691201000 0] by (simp add: c)
  from s1 s2 a1 a2 show ?thesis by simp
qed


text \<open>
  Claim C9, amended. Over the same sequence of records, the statistics and the
  analytics computed at two clock values agree in everything but the recency counts
  (totals, department and course groupings, GPA distribution, mean GPA, daily counts);
  the recency counts are the numbers of records newer than the clock minus 7 days (and
  minus 30 days for the monthly count). Both handlers leave the services as they were.
\<close>

theorem statistics_clock_only_in_recency:
  "computeStats apps now2 =
     (computeStats apps now1)
       \<lparr>recentApplications := length (filter (\<lambda>a. db_created_at a > now2 - 604800000) apps)\<rparr> \<and>
   computeAnalytics apps now2 =
     (computeAnalytics apps now1)
       \<lparr>an_recentApplications := length (filter (\<lambda>a. db_created_at a > now2 - 604800000) apps),
        an_monthlyGrowth := length (filter (\<lambda>a. db_created_at a > now2 - 2592000000) apps)\<rparr> \<and>
   snd (getApplicationStats sv now1) = sv \<and>
   snd (getApplicationAnalytics sv now1) = sv"
proof -
  have c1: "snd (getApplicationStats sv now1) = sv"
    by (simp add: getApplicationStats_def split: sum.splits)
  have c2: "snd (getApplicationAnalytics sv now1) = sv"
    by (simp add: getApplicationAnalytics_def split: sum.splits)
  from computeStats_clock[of apps now2 now1] computeAnalytics_clock[of apps now2 now1] c1 c2
  show ?thesis by blast
qed

theorem statistics_clock_only_in_recency_witness:
  "averageGpa (computeStats (Applications exampleServices) 691201000) =
     averageGpa (computeStats (Applications exampleServices) 1000) \<and>
   departments (computeStats (Applications exampleServices) 691201000) =
     departments (computeStats (Applications exampleServices) 1000) \<and>
   gpaHigh (computeStats (Applications exampleServices) 691201000) =
     gpaHigh (computeStats (Applications exampleServices) 1000) \<and>
   recentApplications (computeStats (Applications exampleServices) 691201000) = 0 \<and>
   an_courses (computeAnalytics (Applications exampleServices) 691201000) =
     an_courses (computeAnalytics (Applications exampleServices) 1000) \<and>
   an_monthlyGrowth (computeAnalytics (Applications exampleServices) 691201000) = 5 \<and>
   snd (getApplicationStats exampleServices 1000) = exampleServices"
proof -
  have rows: "map db_created_at (Applications exampleServices) = [100, 200, 300, 400, 500]"
    by (simp add: exampleServices_def exampleRow_def)
  have week: "filter (\<lambda>a. db_created_at a > 691201000 - 604800000) (Applications exampleServices) = []"
    by (simp add: exampleServices_def exampleRow_def)
  have month: "length (filter (\<lambda>a. db_created_at a > 691201000 - 2592000000) (Applications exampleServices)) = 5"
    by (simp add: exampleServices_def exampleRow_def)
  note t = statistics_clock_only_in_recency[of "Applications exampleServices" 691201000 1000 exampleServices]
  have s: "computeStats (Applications exampleServices) 691201000 =
     (computeStats (Applications exampleServices) 1000)\<lparr>recentApplications := 0\<rparr>"
    using t week by simp
  have a: "computeAnalytics (Applications exampleServices) 691201000 =
     (computeAnalytics (Applications exampleServices) 1000)
       \<lparr>an_recentApplications := 0, an_monthlyGrowth := 5\<rparr>"
    using t week month by simp
  have u: "snd (getApplicationStats exampleServices 1000) = exampleServices"
    using t by simp
  show ?thesis
    by (simp add: s a u)
qed

end
